theory Spec2Isabelle
  imports
    Main
    "HOL-Library.Word"
    "HOL-Library.AList"
    "HOL-Library.Multiset"
    "HOL-Library.Char_ord"
    "HOL-Library.List_Lexorder"
begin

section \<open>MPC, the MiKTeX package creator (BuildUtilities/mpc/mpc.cpp)\<close>

text \<open>
  A shallow embedding of the parts of \<^verbatim>\<open>mpc.cpp\<close> that assemble a package repository:
  the staging reader, the package table, the package-list reader, the categorizer, the
  TDS digest, the archive reconciler and the database writer's clean-up and
  repository-information steps.

  Conventions.
  \<^item> A byte is a \<^typ>\<open>char\<close>; \<^verbatim>\<open>std::string\<close> and byte buffers are \<^typ>\<open>string\<close>.
    \<^verbatim>\<open>std::string\<close> comparison (\<^verbatim>\<open>std::less\<close>, \<^verbatim>\<open>std::sort\<close>) is the lexicographic order on
    bytes, which is the order on \<^typ>\<open>string\<close> here.
  \<^item> \<^verbatim>\<open>size_t\<close> is a 64-bit word, \<^verbatim>\<open>int\<close> a 32-bit word read signed, \<^verbatim>\<open>time_t\<close> an integer.
  \<^item> \<^verbatim>\<open>FatalError\<close> (\<^verbatim>\<open>throw 1\<close>) and exceptions of the MiKTeX libraries are values of
    the type \<open>error\<close>; a function that can throw returns \<open>error + result\<close>.
  \<^item> A \<^verbatim>\<open>std::map\<close> is the list of its entries in iteration order.
  \<^item> \<^verbatim>\<open>Warning\<close> appends to a list of warnings that the functions pass along.
  \<^item> Paths are those of the POSIX build: the directory delimiter is a slash and file
    names compare byte by byte.
\<close>

subsection \<open>Errors, digests, paths\<close>

datatype error =
    FatalError string
  | MiKTeXException string

type_synonym MD5 = string

text \<open>The MD5 value of a default-constructed \<^verbatim>\<open>MD5\<close> object: sixteen zero bytes.\<close>

definition MD5_default :: MD5 where
  "MD5_default = replicate 16 (CHR 0x00)"

text \<open>
  \<^verbatim>\<open>MD5Builder\<close> is library code outside \<^verbatim>\<open>src/\<close>: the functions below take it as a
  parameter, a record of its three operations over a state type \<open>'h\<close>.
\<close>

record 'h MD5Builder =
  Init :: 'h
  Update :: "'h \<Rightarrow> string \<Rightarrow> 'h"
  Final :: "'h \<Rightarrow> MD5"

text \<open>
  Modelled from the spec: \<^verbatim>\<open>PathName::operator/=\<close> is library code that is not in
  \<^verbatim>\<open>src/\<close>; the spec writes the joined paths as forward-slash paths
  (\<^verbatim>\<open>texmf/tex/latex/foo/foo.sty\<close>). A delimiter is put between the two parts unless the
  left part is empty or already ends with one.
\<close>

definition AppendComponent :: "string \<Rightarrow> string \<Rightarrow> string" where
  "AppendComponent p c =
     (if p = [] then c
      else if last p = CHR ''/'' then p @ c
      else p @ CHR ''/'' # c)"

text \<open>
  Modelled from the spec: \<^verbatim>\<open>PathName::GetExtension\<close>, \<^verbatim>\<open>HasExtension\<close> and
  \<^verbatim>\<open>AppendExtension\<close> are library code that is not in \<^verbatim>\<open>src/\<close>. The extension of a
  path is the part of its last component from the last dot on. \<^verbatim>\<open>AppendExtension\<close>
  appends the suffix to the whole name unless the name already has that extension:
  the archive of package \<^verbatim>\<open>id\<close> is \<^verbatim>\<open>id.tar.lzma\<close>, and \<^verbatim>\<open>files.csv\<close> with
  \<^verbatim>\<open>AppendExtension(".lzma")\<close> is the spec's \<^verbatim>\<open>files.csv.lzma\<close> (section 4.6, step 5).
\<close>

definition GetFileName :: "string \<Rightarrow> string" where
  "GetFileName p = rev (takeWhile (\<lambda>c. c \<noteq> CHR ''/'') (rev p))"

definition GetExtension :: "string \<Rightarrow> string" where
  "GetExtension p =
     (let f = GetFileName p in
      if CHR ''.'' \<in> set f
      then CHR ''.'' # rev (takeWhile (\<lambda>c. c \<noteq> CHR ''.'') (rev f))
      else [])"

definition HasExtension :: "string \<Rightarrow> string \<Rightarrow> bool" where
  "HasExtension p ext = (GetExtension p \<noteq> [] \<and> GetExtension p = ext)"

definition AppendExtension :: "string \<Rightarrow> string \<Rightarrow> string" where
  "AppendExtension p ext = (if HasExtension p ext then p else p @ ext)"

text \<open>\<^verbatim>\<open>StartsWith\<close>: \<^verbatim>\<open>s.compare(0, prefix.length(), prefix) == 0\<close>.\<close>

definition StartsWith :: "string \<Rightarrow> string \<Rightarrow> bool" where
  "StartsWith s pfx = (take (length pfx) s = pfx)"

subsection \<open>Package information\<close>

datatype ArchiveFileType = None_type | MSCab | TarBzip2 | Zip | Tar | TarLzma

record PackageSpec =
  spec_id :: string
  level :: char
  archiveFileType :: ArchiveFileType

text \<open>
  \<^verbatim>\<open>MpcPackageInfo\<close>: the fields of the library's \<^verbatim>\<open>PackageInfo\<close> that \<^verbatim>\<open>mpc.cpp\<close> reads or
  writes, and the two fields \<^verbatim>\<open>MpcPackageInfo\<close> adds (\<^verbatim>\<open>archiveFileDigest\<close>, \<^verbatim>\<open>path\<close>).
  The field \<^verbatim>\<open>id\<close> is \<open>id'\<close> here.
\<close>

record MpcPackageInfo =
  id' :: string
  displayName :: string
  creator :: string
  title :: string
  version :: string
  targetSystem :: string
  minTargetSystemVersion :: string
  description :: string
  ctanPath :: string
  copyrightOwner :: string
  copyrightYear :: string
  licenseType :: string
  requiredPackages :: "string list"
  requiredBy :: "string list"
  runFiles :: "string list"
  docFiles :: "string list"
  sourceFiles :: "string list"
  sizeRunFiles :: "64 word"
  sizeDocFiles :: "64 word"
  sizeSourceFiles :: "64 word"
  digest :: MD5
  timePackaged :: int
  archiveFileSize :: "64 word"
  archiveFileDigest :: MD5
  path :: string

text \<open>
  A default-constructed \<^verbatim>\<open>MpcPackageInfo\<close>: empty strings and lists, zero sizes. The
  library's \<^verbatim>\<open>InvalidTimeT\<close>, the initial \<^verbatim>\<open>timePackaged\<close>, is a parameter.
\<close>

definition MpcPackageInfo_default :: "int \<Rightarrow> MpcPackageInfo" where
  "MpcPackageInfo_default InvalidTimeT =
     \<lparr> id' = [], displayName = [], creator = [], title = [], version = [],
       targetSystem = [], minTargetSystemVersion = [], description = [], ctanPath = [],
       copyrightOwner = [], copyrightYear = [], licenseType = [],
       requiredPackages = [], requiredBy = [],
       runFiles = [], docFiles = [], sourceFiles = [],
       sizeRunFiles = 0, sizeDocFiles = 0, sizeSourceFiles = 0,
       digest = MD5_default, timePackaged = InvalidTimeT,
       archiveFileSize = 0, archiveFileDigest = MD5_default, path = [] \<rparr>"

subsection \<open>std::map\<close>

text \<open>
  A \<^verbatim>\<open>std::map\<close> with comparator \<open>lt\<close>, as the list of its entries in iteration
  order. \<open>std_map_assign lt k v m\<close> is \<^verbatim>\<open>m[k] = v\<close>: an entry whose key is equivalent
  to \<open>k\<close> keeps its key and takes the new value; otherwise the entry is inserted at
  its place in the order.
\<close>

fun std_map_assign ::
  "(string \<Rightarrow> string \<Rightarrow> bool) \<Rightarrow> string \<Rightarrow> 'v \<Rightarrow> (string \<times> 'v) list \<Rightarrow> (string \<times> 'v) list"
where
  "std_map_assign lt k v [] = [(k, v)]"
| "std_map_assign lt k v ((k', v') # m) =
     (if lt k k' then (k, v) # (k', v') # m
      else if lt k' k then (k', v') # std_map_assign lt k v m
      else (k', v) # m)"

text \<open>
  The package table is a \<^verbatim>\<open>std::map<string, MpcPackageInfo>\<close> with the default
  comparator \<^verbatim>\<open>std::less<string>\<close>. \<^verbatim>\<open>find\<close> is \<^const>\<open>map_of\<close>; a write through an
  iterator is \<open>modify\<close>.
\<close>

type_synonym packageTable = "(string \<times> MpcPackageInfo) list"

definition table_assign :: "string \<Rightarrow> 'v \<Rightarrow> (string \<times> 'v) list \<Rightarrow> (string \<times> 'v) list" where
  "table_assign k v m = std_map_assign (<) k v m"

fun modify :: "string \<Rightarrow> ('v \<Rightarrow> 'v) \<Rightarrow> (string \<times> 'v) list \<Rightarrow> (string \<times> 'v) list" where
  "modify k g [] = []"
| "modify k g ((k', v) # m) =
     (if k' = k then (k', g v) # m else (k', v) # modify k g m)"

subsection \<open>The repository manifest and other INI documents (Cfg)\<close>

text \<open>
  \<^verbatim>\<open>Cfg\<close> is library code outside \<^verbatim>\<open>src/\<close>. Modelled from the spec: an ordered INI
  document, sections keyed by name, each a list of named string values. Names match
  exactly here: the library compares the names of a document without regard to case
  (\<^verbatim>\<open>package.ini\<close> is written with \<^verbatim>\<open>md5\<close> and read with \<^verbatim>\<open>MD5\<close>), and a document of this
  theory spells a name the way the program reads it.
\<close>

type_synonym Cfg = "(string \<times> (string \<times> string) list) list"

definition TryGetValueAsString :: "Cfg \<Rightarrow> string \<Rightarrow> string \<Rightarrow> string option" where
  "TryGetValueAsString cfg sec name =
     (case map_of cfg sec of None \<Rightarrow> None | Some kvs \<Rightarrow> map_of kvs name)"

definition PutValue :: "Cfg \<Rightarrow> string \<Rightarrow> string \<Rightarrow> string \<Rightarrow> Cfg" where
  "PutValue cfg sec name v =
     AList.update sec
       (AList.update name v (case map_of cfg sec of None \<Rightarrow> [] | Some kvs \<Rightarrow> kvs)) cfg"

definition GetSize :: "Cfg \<Rightarrow> nat" where
  "GetSize cfg = length cfg"

subsection \<open>The staging reader\<close>

text \<open>
  The tree below a directory, as \<^verbatim>\<open>DirectoryLister\<close> returns it: a regular file with
  its name and size, or a sub-directory with its name and entries.
\<close>

datatype fs_tree =
    RegularFile string "64 word"
  | SubDirectory string "fs_tree list"

text \<open>
  Modelled from the spec: \<^verbatim>\<open>PathName::ComparePrefixes\<close> is library code that is not in
  \<^verbatim>\<open>src/\<close>. \<open>ComparePrefixes p1 p2 n\<close> holds when the call returns 0: the first \<open>n\<close>
  characters of the two paths are the same (the comparison stops where both end).
\<close>

definition ComparePrefixes :: "string \<Rightarrow> string \<Rightarrow> nat \<Rightarrow> bool" where
  "ComparePrefixes p1 p2 n = (take n p1 = take n p2)"

definition IsInTeXMFDirectory :: "string \<Rightarrow> string \<Rightarrow> string \<Rightarrow> bool" where
  "IsInTeXMFDirectory texmfPrefix relPath subDir =
     (let texmfDirectory = AppendComponent texmfPrefix subDir
      in ComparePrefixes texmfDirectory relPath (length texmfDirectory))"

text \<open>
  \<^verbatim>\<open>CollectFiles\<close>. The six reference parameters are always the file lists and sizes of
  one \<^verbatim>\<open>MpcPackageInfo\<close>, which is passed and returned here. The list argument is what
  the lister returns for \<^verbatim>\<open>rootDir / subDir\<close>.
\<close>

fun CollectFiles :: "string \<Rightarrow> string \<Rightarrow> fs_tree list \<Rightarrow> MpcPackageInfo \<Rightarrow> MpcPackageInfo"
  and CollectFiles_entry :: "string \<Rightarrow> string \<Rightarrow> fs_tree \<Rightarrow> MpcPackageInfo \<Rightarrow> MpcPackageInfo"
where
  "CollectFiles texmfPrefix subDir [] pi = pi"
| "CollectFiles texmfPrefix subDir (e # es) pi =
     CollectFiles texmfPrefix subDir es (CollectFiles_entry texmfPrefix subDir e pi)"
| "CollectFiles_entry texmfPrefix subDir (SubDirectory name es) pi =
     CollectFiles texmfPrefix (AppendComponent subDir name) es pi"
| "CollectFiles_entry texmfPrefix subDir (RegularFile name sz) pi =
     (let relPath = AppendComponent subDir name in
      if IsInTeXMFDirectory texmfPrefix relPath ''doc''
      then pi\<lparr>docFiles := docFiles pi @ [relPath], sizeDocFiles := sizeDocFiles pi + sz\<rparr>
      else if IsInTeXMFDirectory texmfPrefix relPath ''source''
      then pi\<lparr>sourceFiles := sourceFiles pi @ [relPath],
             sizeSourceFiles := sizeSourceFiles pi + sz\<rparr>
      else pi\<lparr>runFiles := runFiles pi @ [relPath], sizeRunFiles := sizeRunFiles pi + sz\<rparr>)"

text \<open>
  The relative paths of the regular files of a tree, in the order in which
  \<^verbatim>\<open>CollectFiles\<close> meets them.
\<close>

fun file_paths :: "string \<Rightarrow> fs_tree list \<Rightarrow> string list"
  and file_paths_entry :: "string \<Rightarrow> fs_tree \<Rightarrow> string list"
where
  "file_paths subDir [] = []"
| "file_paths subDir (e # es) = file_paths_entry subDir e @ file_paths subDir es"
| "file_paths_entry subDir (SubDirectory name es) = file_paths (AppendComponent subDir name) es"
| "file_paths_entry subDir (RegularFile name sz) = [AppendComponent subDir name]"

text \<open>
  A staging directory: the parsed \<^verbatim>\<open>package.ini\<close> (none when the file does not exist),
  the \<^verbatim>\<open>Description\<close> file (none when it does not exist) and the tree below
  \<^verbatim>\<open>Files\<close> (none when that directory does not exist).
\<close>

record StagingDirectory =
  package_ini :: "Cfg option"
  Description :: "string option"
  Files :: "fs_tree list option"

text \<open>\<^verbatim>\<open>CollectPackage\<close>: clear the file lists, then \<^verbatim>\<open>CollectSubTree(path, "Files", ...)\<close>.\<close>

definition CollectPackage :: "string \<Rightarrow> StagingDirectory \<Rightarrow> MpcPackageInfo \<Rightarrow> MpcPackageInfo" where
  "CollectPackage texmfPrefix d packageInfo =
     (let cleared = packageInfo\<lparr>sizeRunFiles := 0, runFiles := [], sizeDocFiles := 0,
                      docFiles := [], sizeSourceFiles := 0, sourceFiles := []\<rparr>
      in case Files d of
           None \<Rightarrow> cleared
         | Some es \<Rightarrow> CollectFiles texmfPrefix [] es cleared)"

text \<open>
  Modelled from the spec: \<^verbatim>\<open>StringUtil::Split\<close> is library code that is not in \<^verbatim>\<open>src/\<close>;
  the \<^verbatim>\<open>requires\<close> value is multi-valued, separated by the path delimiter.
\<close>

fun Split :: "string \<Rightarrow> char \<Rightarrow> string list" where
  "Split [] d = []"
| "Split (c # cs) d =
     (if c = d then [] # Split cs d
      else (case Split cs d of [] \<Rightarrow> [[c]] | t # ts \<Rightarrow> (c # t) # ts))"

text \<open>
  \<^verbatim>\<open>InitializePackageInfo\<close>. Parameters: \<^verbatim>\<open>MD5::Parse\<close> (none when it throws), the
  platform's \<^verbatim>\<open>PathNameDelimiter\<close> and \<^verbatim>\<open>InvalidTimeT\<close>. \<^verbatim>\<open>Cfg::Read\<close> throws when
  \<^verbatim>\<open>package.ini\<close> does not exist. \<open>read_values\<close> is the package information once the
  mandatory values \<open>i\<close> (id) and \<open>n\<close> (name) are found and the digest \<open>dg\<close> is parsed:
  every other value is optional and leaves its field as it is when absent.
\<close>

definition read_values ::
  "char \<Rightarrow> int \<Rightarrow> string \<Rightarrow> StagingDirectory \<Rightarrow> Cfg \<Rightarrow> string \<Rightarrow> string \<Rightarrow> MD5 \<Rightarrow> MpcPackageInfo"
where
  "read_values PathNameDelimiter InvalidTimeT stagingDir d cfg i n dg =
     (let get = TryGetValueAsString cfg [];
          opt = (\<lambda>name. case get name of None \<Rightarrow> [] | Some s \<Rightarrow> s)
      in (MpcPackageInfo_default InvalidTimeT)
           \<lparr> id' := i, displayName := n,
             creator := opt ''creator'', title := opt ''title'',
             version := opt ''version'',
             targetSystem := opt ''targetsystem'',
             minTargetSystemVersion := opt ''min_target_system_version'',
             description := (case Description d of None \<Rightarrow> [] | Some s \<Rightarrow> s),
             ctanPath := opt ''ctan_path'',
             copyrightOwner := opt ''copyright_owner'',
             copyrightYear := opt ''copyright_year'',
             licenseType := opt ''license_type'',
             requiredPackages :=
               (case get ''requires'' of
                  None \<Rightarrow> []
                | Some s \<Rightarrow> Split s PathNameDelimiter),
             digest := dg, path := stagingDir \<rparr>)"

definition InitializePackageInfo ::
  "(string \<Rightarrow> MD5 option) \<Rightarrow> char \<Rightarrow> int \<Rightarrow> string \<Rightarrow> StagingDirectory \<Rightarrow> error + MpcPackageInfo"
where
  "InitializePackageInfo MD5_Parse PathNameDelimiter InvalidTimeT stagingDir d =
     (case package_ini d of
        None \<Rightarrow> Inl (MiKTeXException ''package.ini could not be read'')
      | Some cfg \<Rightarrow>
          (case (case TryGetValueAsString cfg [] ''id'' of
                   Some i \<Rightarrow> Some i
                 | None \<Rightarrow> TryGetValueAsString cfg [] ''externalname'') of
             None \<Rightarrow> Inl (FatalError ''Invalid package information file (id).'')
           | Some i \<Rightarrow>
               (case TryGetValueAsString cfg [] ''name'' of
                  None \<Rightarrow> Inl (FatalError ''Invalid package information file (name).'')
                | Some n \<Rightarrow>
                    (case (case TryGetValueAsString cfg [] ''MD5'' of
                             None \<Rightarrow> Some MD5_default
                           | Some s \<Rightarrow> MD5_Parse s) of
                       None \<Rightarrow> Inl (MiKTeXException ''MD5::Parse'')
                     | Some dg \<Rightarrow>
                         Inr (read_values PathNameDelimiter InvalidTimeT stagingDir
                                d cfg i n dg)))))"

text \<open>
  The fields of the \<^verbatim>\<open>PackageCreator\<close> object that the functions below read.
\<close>

record PackageCreator =
  defaultArchiveFileType :: ArchiveFileType
  defaultLevel :: char
  packageList :: "(string \<times> PackageSpec) list"
  programStartTime :: int
  releaseState :: string
  texmfPrefix :: string

definition GetPackageLevel :: "PackageCreator \<Rightarrow> MpcPackageInfo \<Rightarrow> char" where
  "GetPackageLevel this packageInfo =
     (case map_of (packageList this) (id' packageInfo) of
        None \<Rightarrow> defaultLevel this
      | Some s \<Rightarrow> level s)"

definition IsToBeIgnored :: "PackageCreator \<Rightarrow> MpcPackageInfo \<Rightarrow> bool" where
  "IsToBeIgnored this packageInfo = (GetPackageLevel this packageInfo = CHR ''-'')"

subsection \<open>The package table\<close>

datatype warning =
    AlreadyCollected string
  | DependencyProblem string string
  | IgnoringListLine char string char

text \<open>An entry of a staging root: a file, or a directory with its content.\<close>

datatype root_entry =
    OtherFile string
  | StagingDir string StagingDirectory

text \<open>
  \<^verbatim>\<open>CollectPackages\<close>. The loop over the entries of one staging root; the state is the
  package table and the warnings printed so far.
\<close>

fun CollectPackages_loop ::
  "PackageCreator \<Rightarrow> (string \<Rightarrow> MD5 option) \<Rightarrow> char \<Rightarrow> int \<Rightarrow> string \<Rightarrow> root_entry list \<Rightarrow>
   packageTable \<times> warning list \<Rightarrow> error + packageTable \<times> warning list"
where
  "CollectPackages_loop this parse delim invT stagingRoot [] s = Inr s"
| "CollectPackages_loop this parse delim invT stagingRoot (OtherFile name # es) s =
     CollectPackages_loop this parse delim invT stagingRoot es s"
| "CollectPackages_loop this parse delim invT stagingRoot (StagingDir name d # es) (tbl, ws) =
     (case package_ini d of
        None \<Rightarrow> CollectPackages_loop this parse delim invT stagingRoot es (tbl, ws)
      | Some cfg \<Rightarrow>
          (case InitializePackageInfo parse delim invT (AppendComponent stagingRoot name) d of
             Inl e \<Rightarrow> Inl e
           | Inr packageInfo \<Rightarrow>
               if IsToBeIgnored this packageInfo
               then CollectPackages_loop this parse delim invT stagingRoot es (tbl, ws)
               else if map_of tbl (id' packageInfo) \<noteq> None
               then CollectPackages_loop this parse delim invT stagingRoot es
                      (tbl, ws @ [AlreadyCollected (id' packageInfo)])
               else CollectPackages_loop this parse delim invT stagingRoot es
                      (table_assign (id' packageInfo)
                         (CollectPackage (texmfPrefix this) d packageInfo) tbl, ws)))"

text \<open>The listing of the staging root is none when the directory does not exist.\<close>

definition CollectPackages ::
  "PackageCreator \<Rightarrow> (string \<Rightarrow> MD5 option) \<Rightarrow> char \<Rightarrow> int \<Rightarrow> string \<Rightarrow> root_entry list option \<Rightarrow>
   packageTable \<times> warning list \<Rightarrow> error + packageTable \<times> warning list"
where
  "CollectPackages this parse delim invT stagingRoot listing s =
     (case listing of
        None \<Rightarrow> Inr s
      | Some es \<Rightarrow> CollectPackages_loop this parse delim invT stagingRoot es s)"

subsection \<open>The package-list reader\<close>

text \<open>
  Modelled from the spec: \<^verbatim>\<open>Tokenizer\<close> is library code that is not in \<^verbatim>\<open>src/\<close>; the
  text after the level is tokenized on the semicolon, the tokens being the non-empty
  pieces between delimiters. Dereferencing a tokenizer with no token left gives the
  empty string here.
\<close>

definition Tokenizer :: "string \<Rightarrow> char \<Rightarrow> string list" where
  "Tokenizer s d = filter (\<lambda>t. t \<noteq> []) (Split s d)"

definition skip_blanks :: "string \<Rightarrow> string" where
  "skip_blanks s = dropWhile (\<lambda>c. c = CHR '' '' \<or> c = CHR 0x09) s"

definition is_level :: "char \<Rightarrow> bool" where
  "is_level ch =
     (ch = CHR ''S'' \<or> ch = CHR ''M'' \<or> ch = CHR ''L'' \<or> ch = CHR ''T'' \<or> ch = CHR ''-'')"

text \<open>
  \<^verbatim>\<open>ReadList(path, mapPackageList)\<close>. \<open>ReadList_entry\<close> is the end of the loop body, for a
  line that starts with a level \<open>ch\<close> and goes on with the text \<open>lpsz\<close>.
\<close>

definition ReadList_entry ::
  "ArchiveFileType \<Rightarrow> char \<Rightarrow> string \<Rightarrow> (string \<times> PackageSpec) list \<times> warning list \<Rightarrow>
   error + (string \<times> PackageSpec) list \<times> warning list"
where
  "ReadList_entry dflt ch lpsz s =
     (let m = fst s; ws = snd s;
          toks = Tokenizer lpsz (CHR '';'');
          packageId = (case toks of [] \<Rightarrow> [] | t # ts \<Rightarrow> t)
      in case map_of m packageId of
           Some it \<Rightarrow> Inr (m, ws @ [IgnoringListLine ch packageId (level it)])
         | None \<Rightarrow>
             (case (case tl toks of
                      [] \<Rightarrow> Some dflt
                    | t # ts \<Rightarrow>
                        if t = ''MSCab'' then Some MSCab
                        else if t = ''TarBzip2'' then Some TarBzip2
                        else if t = ''TarLzma'' then Some TarLzma
                        else None) of
                None \<Rightarrow> Inl (FatalError ''Invalid package list file.'')
              | Some aft \<Rightarrow>
                  Inr (table_assign packageId
                         \<lparr>spec_id = packageId, level = ch, archiveFileType = aft\<rparr> m, ws)))"

text \<open>
  The loop over the lines of a list file. \<open>files\<close> gives the lines of a list file (none
  when the file cannot be opened). An \<^verbatim>\<open>@file\<close> line reads another list file, and
  nothing bounds the nesting in the source: the first argument bounds it here, and a
  list nested deeper than that is an error.
\<close>

fun ReadList_lines ::
  "nat \<Rightarrow> (string \<Rightarrow> string list option) \<Rightarrow> ArchiveFileType \<Rightarrow> string list \<Rightarrow>
   (string \<times> PackageSpec) list \<times> warning list \<Rightarrow>
   error + (string \<times> PackageSpec) list \<times> warning list"
where
  "ReadList_lines n files dflt [] s = Inr s"
| "ReadList_lines n files dflt ([] # rest) s = ReadList_lines n files dflt rest s"
| "ReadList_lines n files dflt ((ch # cs) # rest) s =
     (if skip_blanks cs = [] then ReadList_lines n files dflt rest s
      else if ch = CHR ''@'' then
        (case n of
           0 \<Rightarrow> Inl (MiKTeXException ''package lists nested too deeply'')
         | Suc n' \<Rightarrow>
             (case files (skip_blanks cs) of
                None \<Rightarrow> Inl (MiKTeXException ''the package list could not be opened'')
              | Some ls \<Rightarrow>
                  (case ReadList_lines n' files dflt ls s of
                     Inl e \<Rightarrow> Inl e
                   | Inr s' \<Rightarrow> ReadList_lines n files dflt rest s')))
      else if \<not> is_level ch then ReadList_lines n files dflt rest s
      else
        (case ReadList_entry dflt ch (skip_blanks cs) s of
           Inl e \<Rightarrow> Inl e
         | Inr s' \<Rightarrow> ReadList_lines n files dflt rest s'))"

definition ReadList ::
  "nat \<Rightarrow> (string \<Rightarrow> string list option) \<Rightarrow> ArchiveFileType \<Rightarrow> string \<Rightarrow>
   (string \<times> PackageSpec) list \<times> warning list \<Rightarrow>
   error + (string \<times> PackageSpec) list \<times> warning list"
where
  "ReadList n files dflt listFile s =
     (case files listFile of
        None \<Rightarrow> Inl (MiKTeXException ''the package list could not be opened'')
      | Some ls \<Rightarrow> ReadList_lines n files dflt ls s)"

subsection \<open>Create-package mode: loading the package table\<close>

text \<open>
  \<^verbatim>\<open>LoadPackageManifests\<close>, after the manifest archive is extracted: each package
  manifest file, given by its name without extension and the \<^verbatim>\<open>PackageInfo\<close> read from
  it, is stored under that name.
\<close>

fun LoadPackageManifests_loop ::
  "(string \<times> MpcPackageInfo) list \<Rightarrow> packageTable \<Rightarrow> packageTable"
where
  "LoadPackageManifests_loop [] tbl = tbl"
| "LoadPackageManifests_loop ((stem, packageInfo) # fs) tbl =
     LoadPackageManifests_loop fs (table_assign stem (packageInfo\<lparr>id' := stem\<rparr>) tbl)"

text \<open>
  The \<^verbatim>\<open>optCreatePackage\<close> branch of \<^verbatim>\<open>Run\<close>, up to the call of \<^verbatim>\<open>UpdateRepository\<close>:
  it gives the repository manifest and the package table that are passed on.
  \<open>loadedManifest\<close> is what \<^verbatim>\<open>LoadRepositoryManifest\<close> returns or throws and
  \<open>manifestFiles\<close> what extracting and reading the package manifest files gives.
\<close>

definition Run_create_package ::
  "PackageCreator \<Rightarrow> (string \<Rightarrow> MD5 option) \<Rightarrow> char \<Rightarrow> int \<Rightarrow> string \<Rightarrow> error + Cfg \<Rightarrow>
   error + (string \<times> MpcPackageInfo) list \<Rightarrow> string \<Rightarrow> StagingDirectory \<Rightarrow>
   error + Cfg \<times> packageTable"
where
  "Run_create_package this parse delim invT repository loadedManifest manifestFiles stagingDir d =
     (if repository = [] then Inl (FatalError ''No repository location was specified.'')
      else case loadedManifest of
        Inl e \<Rightarrow> Inl e
      | Inr repositoryManifest \<Rightarrow>
          (case manifestFiles of
             Inl e \<Rightarrow> Inl e
           | Inr fs \<Rightarrow>
               (let packageTable = LoadPackageManifests_loop fs [] in
                case InitializePackageInfo parse delim invT stagingDir d of
                  Inl e \<Rightarrow> Inl e
                | Inr packageInfo0 \<Rightarrow>
                    (let packageInfo = CollectPackage (texmfPrefix this) d packageInfo0
                     in Inr (repositoryManifest,
                             table_assign (id' packageInfo) packageInfo packageTable)))))"

subsection \<open>The categorizer\<close>

definition push_requiredBy :: "string \<Rightarrow> MpcPackageInfo \<Rightarrow> MpcPackageInfo" where
  "push_requiredBy i p = p\<lparr>requiredBy := requiredBy p @ [i]\<rparr>"

definition push_requiredPackages :: "string \<Rightarrow> MpcPackageInfo \<Rightarrow> MpcPackageInfo" where
  "push_requiredPackages i p = p\<lparr>requiredPackages := requiredPackages p @ [i]\<rparr>"

text \<open>
  The first loop of the \<^verbatim>\<open>autoCategorize\<close> block of \<^verbatim>\<open>Run\<close> (determine dependencies). The
  inner loop runs over the required packages of the package \<open>pid\<close>; the outer loop
  visits the keys of the table in order and reads each entry as it is then.
\<close>

fun determine_requires ::
  "string \<Rightarrow> string list \<Rightarrow> packageTable \<times> warning list \<Rightarrow> packageTable \<times> warning list"
where
  "determine_requires pid [] s = s"
| "determine_requires pid (req # reqs) (tbl, ws) =
     determine_requires pid reqs
       (case map_of tbl req of
          None \<Rightarrow> (tbl, ws @ [DependencyProblem req pid])
        | Some it3 \<Rightarrow> (modify req (push_requiredBy pid) tbl, ws))"

fun determine_dependencies ::
  "string list \<Rightarrow> packageTable \<times> warning list \<Rightarrow> packageTable \<times> warning list"
where
  "determine_dependencies [] s = s"
| "determine_dependencies (k # ks) (tbl, ws) =
     (case map_of tbl k of
        None \<Rightarrow> determine_dependencies ks (tbl, ws)
      | Some pkg \<Rightarrow>
          determine_dependencies ks
            (determine_requires (id' pkg) (requiredPackages pkg) (tbl, ws)))"

text \<open>
  The second loop (categorize). \<open>latex\<close> and \<open>outlineFonts\<close> are the two iterators, the
  key found or none for \<^verbatim>\<open>end()\<close>. \<^verbatim>\<open>Utils::IsParentDirectoryOf\<close> is library code outside
  \<^verbatim>\<open>src/\<close> and a parameter.
\<close>

definition find_key :: "packageTable \<Rightarrow> string \<Rightarrow> string option" where
  "find_key tbl k = (case map_of tbl k of None \<Rightarrow> None | Some p \<Rightarrow> Some k)"

definition isOutlineFont :: "(string \<Rightarrow> string \<Rightarrow> bool) \<Rightarrow> string \<Rightarrow> bool" where
  "isOutlineFont IsParentDirectoryOf s =
     (IsParentDirectoryOf ''texmf/fonts/type1'' s \<or> IsParentDirectoryOf ''texmf/fonts/truetype'' s)"

definition attach :: "string \<Rightarrow> MpcPackageInfo \<Rightarrow> string \<Rightarrow> packageTable \<Rightarrow> packageTable" where
  "attach k pkg umbrella tbl =
     (case map_of tbl umbrella of
        None \<Rightarrow> tbl
      | Some u \<Rightarrow>
          modify umbrella (push_requiredPackages (id' pkg))
            (modify k (push_requiredBy (id' u)) tbl))"

definition categorize_step ::
  "(string \<Rightarrow> string \<Rightarrow> bool) \<Rightarrow> string option \<Rightarrow> string option \<Rightarrow> string \<Rightarrow> packageTable \<Rightarrow>
   packageTable"
where
  "categorize_step IsParentDirectoryOf latex outlineFonts k tbl =
     (case map_of tbl k of
        None \<Rightarrow> tbl
      | Some pkg \<Rightarrow>
          if requiredBy pkg = [] then
            (if latex \<noteq> None \<and> StartsWith (ctanPath pkg) ''/macros/latex/contrib/''
             then attach k pkg (the latex) tbl
             else if outlineFonts \<noteq> None \<and> StartsWith (ctanPath pkg) ''/fonts/''
                     \<and> list_ex (isOutlineFont IsParentDirectoryOf) (runFiles pkg)
             then attach k pkg (the outlineFonts) tbl
             else tbl)
          else tbl)"

fun categorize ::
  "(string \<Rightarrow> string \<Rightarrow> bool) \<Rightarrow> string option \<Rightarrow> string option \<Rightarrow> string list \<Rightarrow> packageTable \<Rightarrow>
   packageTable"
where
  "categorize IsParentDirectoryOf latex outlineFonts [] tbl = tbl"
| "categorize IsParentDirectoryOf latex outlineFonts (k # ks) tbl =
     categorize IsParentDirectoryOf latex outlineFonts ks
       (categorize_step IsParentDirectoryOf latex outlineFonts k tbl)"

text \<open>The whole \<^verbatim>\<open>autoCategorize\<close> block: both loops, one after the other.\<close>

definition autoCategorize ::
  "(string \<Rightarrow> string \<Rightarrow> bool) \<Rightarrow> packageTable \<Rightarrow> packageTable \<times> warning list"
where
  "autoCategorize IsParentDirectoryOf packageTable =
     (let (tbl, ws) = determine_dependencies (map fst packageTable) (packageTable, []);
          latex = find_key tbl ''_miktex-latex-packages'';
          outlineFonts = find_key tbl ''_miktex-fonts-type1''
      in (categorize IsParentDirectoryOf latex outlineFonts (map fst tbl) tbl, ws))"

subsection \<open>Invariants of the package table and examples\<close>

text \<open>
  What holds of a package table that \<^verbatim>\<open>CollectPackages\<close> has built from the empty
  table: the keys ascend, every package is stored under its id, no package has a
  \<^verbatim>\<open>requiredBy\<close> entry yet, and no package is to be ignored.
\<close>

definition collected :: "PackageCreator \<Rightarrow> packageTable \<Rightarrow> bool" where
  "collected this tbl =
     (sorted_wrt (<) (map fst tbl) \<and>
      list_all (\<lambda>(k, p). id' p = k \<and> requiredBy p = [] \<and> \<not> IsToBeIgnored this p) tbl)"

text \<open>Concrete inputs for the examples: a creator with the defaults of the class.\<close>

definition example_creator :: PackageCreator where
  "example_creator =
     \<lparr> defaultArchiveFileType = TarLzma, defaultLevel = CHR ''T'', packageList = [],
       programStartTime = 1800000000, releaseState = ''stable'', texmfPrefix = ''texmf'' \<rparr>"

definition example_ini :: Cfg where
  "example_ini = [([], [(''id'', ''foo''), (''name'', ''Foo'')])]"

definition example_staging :: StagingDirectory where
  "example_staging =
     \<lparr> package_ini = Some example_ini, Description = None,
       Files = Some [SubDirectory ''texmf'' [SubDirectory ''tex'' [RegularFile ''x.sty'' 10]]] \<rparr>"

definition example_foo :: MpcPackageInfo where
  "example_foo =
     read_values (CHR '':'') (- 1) ''/stage/foo'' example_staging example_ini
       ''foo'' ''Foo'' MD5_default"

definition example_empty_dir :: StagingDirectory where
  "example_empty_dir = \<lparr> package_ini = None, Description = None, Files = None \<rparr>"

definition example_old :: MpcPackageInfo where
  "example_old = (MpcPackageInfo_default (- 1))\<lparr> id' := ''foo'', displayName := ''Old Foo'' \<rparr>"

text \<open>
  What the categorizer needs of a package table, and what \<^verbatim>\<open>CollectPackages\<close> gives:
  ascending keys, every package under its id, no \<^verbatim>\<open>requiredBy\<close> entry yet.
\<close>

definition staged :: "packageTable \<Rightarrow> bool" where
  "staged tbl =
     (sorted_wrt (<) (map fst tbl) \<and> list_all (\<lambda>(k, p). id' p = k \<and> requiredBy p = []) tbl)"

text \<open>
  For the proofs about the first loop: what the package under key \<open>k\<close> adds to the
  \<^verbatim>\<open>requiredBy\<close> list of the package \<open>q\<close>, and the warnings it causes.
\<close>

definition contribution :: "packageTable \<Rightarrow> string \<Rightarrow> string \<Rightarrow> string list" where
  "contribution tbl q k =
     (case map_of tbl k of
        None \<Rightarrow> []
      | Some pk \<Rightarrow> replicate (count_list (requiredPackages pk) q) (id' pk))"

definition problems :: "packageTable \<Rightarrow> string \<Rightarrow> warning list" where
  "problems tbl k =
     (case map_of tbl k of
        None \<Rightarrow> []
      | Some pk \<Rightarrow> map (\<lambda>req. DependencyProblem req (id' pk))
                    (filter (\<lambda>req. map_of tbl req = None) (requiredPackages pk)))"

text \<open>
  The invariant of the second loop: every package is stored under its id, and the
  \<^verbatim>\<open>requiredBy\<close> lists are the transpose of the \<^verbatim>\<open>requiredPackages\<close> lists.
\<close>

definition transpose_inv :: "packageTable \<Rightarrow> bool" where
  "transpose_inv tbl =
     ((\<forall>k p. map_of tbl k = Some p \<longrightarrow> id' p = k) \<and>
      (\<forall>kp kq p q. map_of tbl kp = Some p \<and> map_of tbl kq = Some q \<longrightarrow>
         (kq \<in> set (requiredPackages p)) = (kp \<in> set (requiredBy q))))"

text \<open>An example table: an umbrella package, a package with a missing dependency.\<close>

definition example_pkg :: "string \<Rightarrow> string list \<Rightarrow> string \<Rightarrow> MpcPackageInfo" where
  "example_pkg i reqs ctan =
     (MpcPackageInfo_default (- 1))\<lparr> id' := i, requiredPackages := reqs, ctanPath := ctan \<rparr>"

definition example_table :: packageTable where
  "example_table =
     [(''_miktex-latex-packages'', example_pkg ''_miktex-latex-packages'' [] []),
      (''a'', example_pkg ''a'' [''b'', ''zzz''] []),
      (''b'', example_pkg ''b'' [] ''/macros/latex/contrib/b''),
      (''c'', example_pkg ''c'' [] ''/macros/latex/contrib/c'')]"

subsection \<open>The database writer: clean-up\<close>

text \<open>
  \<^verbatim>\<open>CleanUp\<close>. The repository directory is the list of its file names, in the order of
  the lister; a file exists when its path is that of a listed name. \<open>CleanUp_entry\<close> is
  the body of the first loop, which adds to \<^verbatim>\<open>toBeDeleted\<close>.
\<close>

definition CleanUp_entry :: "string \<Rightarrow> string list \<Rightarrow> string \<Rightarrow> string list \<Rightarrow> string list" where
  "CleanUp_entry repository names name toBeDeleted =
     (let path = AppendComponent repository name;
          present = (\<lambda>p. p \<in> set (map (AppendComponent repository) names))
      in if HasExtension path ''.cab'' then
           (let toBeDeleted1 =
                  (if present (AppendExtension path ''.tar.bz2'')
                   then toBeDeleted @ [path] else toBeDeleted)
            in if present (AppendExtension path ''.tar.lzma'')
               then toBeDeleted1 @ [path] else toBeDeleted1)
         else if HasExtension path ''.bz2'' then
           (if present (AppendExtension path ''.lzma'')
            then toBeDeleted @ [path] else toBeDeleted)
         else toBeDeleted)"

fun CleanUp_scan :: "string \<Rightarrow> string list \<Rightarrow> string list \<Rightarrow> string list \<Rightarrow> string list" where
  "CleanUp_scan repository names [] toBeDeleted = toBeDeleted"
| "CleanUp_scan repository names (name # rest) toBeDeleted =
     CleanUp_scan repository names rest (CleanUp_entry repository names name toBeDeleted)"

text \<open>
  The second loop: \<^verbatim>\<open>File::Delete\<close> of each path, on the paths of the directory. Deleting
  a file that is not there is an error of the library.
\<close>

fun CleanUp_delete :: "string list \<Rightarrow> string list \<Rightarrow> error + string list" where
  "CleanUp_delete [] files = Inr files"
| "CleanUp_delete (fileName # rest) files =
     (if fileName \<in> set files
      then CleanUp_delete rest (filter (\<lambda>f. f \<noteq> fileName) files)
      else Inl (MiKTeXException ''File::Delete''))"

text \<open>\<open>CleanUp repository names\<close> gives the paths that are left in the repository.\<close>

definition CleanUp :: "string \<Rightarrow> string list \<Rightarrow> error + string list" where
  "CleanUp repository names =
     CleanUp_delete (CleanUp_scan repository names names [])
       (map (AppendComponent repository) names)"

subsection \<open>The TDS digest\<close>

text \<open>
  Modelled from the spec: the comparator \<^verbatim>\<open>less_icase_dos\<close> of \<^verbatim>\<open>FileDigestTable\<close> is
  library code that is not in \<^verbatim>\<open>src/\<close>. It is the case-insensitive DOS order: two
  paths compare as their normal forms do, byte by byte, the normal form having
  backslashes for slashes and lower-case ASCII letters for upper-case ones.
\<close>

definition dos_char :: "char \<Rightarrow> char" where
  "dos_char c =
     (if c = CHR ''/'' then CHR 0x5C
      else case map_of (zip ''ABCDEFGHIJKLMNOPQRSTUVWXYZ'' ''abcdefghijklmnopqrstuvwxyz'') c of
             Some l \<Rightarrow> l
           | None \<Rightarrow> c)"

definition dos_normalize :: "string \<Rightarrow> string" where
  "dos_normalize p = map dos_char p"

definition less_icase_dos :: "string \<Rightarrow> string \<Rightarrow> bool" where
  "less_icase_dos a b = (dos_normalize a < dos_normalize b)"

text \<open>
  \<^verbatim>\<open>FileDigestTable\<close> is \<^verbatim>\<open>map<string, MD5, less_icase_dos>\<close>: the entries in iteration
  order. \<open>FileDigestTable_assign\<close> is \<^verbatim>\<open>fileDigests[path] = digest\<close>; \<open>FileDigestTable_of\<close>
  is the table after a sequence of such assignments to the empty table;
  \<open>FileDigestTable_ok\<close> is the invariant of the container, strictly ascending keys.
\<close>

type_synonym FileDigestTable = "(string \<times> MD5) list"

definition FileDigestTable_assign :: "string \<Rightarrow> MD5 \<Rightarrow> FileDigestTable \<Rightarrow> FileDigestTable" where
  "FileDigestTable_assign k v m = std_map_assign less_icase_dos k v m"

fun FileDigestTable_fill :: "(string \<times> MD5) list \<Rightarrow> FileDigestTable \<Rightarrow> FileDigestTable" where
  "FileDigestTable_fill [] m = m"
| "FileDigestTable_fill ((k, v) # es) m = FileDigestTable_fill es (FileDigestTable_assign k v m)"

definition FileDigestTable_of :: "(string \<times> MD5) list \<Rightarrow> FileDigestTable" where
  "FileDigestTable_of es = FileDigestTable_fill es []"

definition FileDigestTable_ok :: "FileDigestTable \<Rightarrow> bool" where
  "FileDigestTable_ok m = sorted_wrt less_icase_dos (map fst m)"

text \<open>
  \<^verbatim>\<open>GetTdsDigest\<close>. \<^verbatim>\<open>PathName::ConvertToDos\<close> is library code outside \<^verbatim>\<open>src/\<close> and a
  parameter, as is the \<^verbatim>\<open>MD5Builder\<close>.
\<close>

fun GetTdsDigest_loop ::
  "'h MD5Builder \<Rightarrow> (string \<Rightarrow> string) \<Rightarrow> FileDigestTable \<Rightarrow> 'h \<Rightarrow> 'h"
where
  "GetTdsDigest_loop md5 ConvertToDos [] h = h"
| "GetTdsDigest_loop md5 ConvertToDos ((p, d) # fileDigests) h =
     GetTdsDigest_loop md5 ConvertToDos fileDigests
       (Update md5 (Update md5 h (ConvertToDos p)) d)"

definition GetTdsDigest :: "'h MD5Builder \<Rightarrow> (string \<Rightarrow> string) \<Rightarrow> FileDigestTable \<Rightarrow> MD5" where
  "GetTdsDigest md5 ConvertToDos fileDigests =
     Final md5 (GetTdsDigest_loop md5 ConvertToDos fileDigests (Init md5))"

text \<open>
  An \<^verbatim>\<open>MD5Builder\<close> for the examples: it keeps the bytes it is given, and the digest
  is all of them.
\<close>

definition transcript :: "string MD5Builder" where
  "transcript = \<lparr> Init = [], Update = (\<lambda>h s. h @ s), Final = (\<lambda>h. h) \<rparr>"

definition example_entries :: "(string \<times> MD5) list" where
  "example_entries =
     [(''texmf/tex/x.sty'', ''0123456789abcdef''), (''texmf/Doc/b.pdf'', ''fedcba9876543210'')]"

subsection \<open>The database writer: the repository information file\<close>

text \<open>
  \<^verbatim>\<open>std::to_string\<close> of an integer, and the conversion to \<^verbatim>\<open>int\<close>, of a number and of
  a \<^verbatim>\<open>size_t\<close> (\<^verbatim>\<open>static_cast<int>\<close>): the low 32 bits, read as a signed number.
\<close>

fun digits :: "nat \<Rightarrow> string" where
  "digits n =
     (if n < 10 then [''0123456789'' ! n]
      else digits (n div 10) @ [''0123456789'' ! (n mod 10)])"

declare digits.simps [simp del]

definition to_string :: "int \<Rightarrow> string" where
  "to_string i = (if i < 0 then CHR ''-'' # digits (nat (- i)) else digits (nat i))"

definition to_int :: "int \<Rightarrow> int" where
  "to_int i = (let u = i mod 2 ^ 32 in if u < 2 ^ 31 then u else u - 2 ^ 32)"

definition static_cast_int :: "64 word \<Rightarrow> int" where
  "static_cast_int w = to_int (uint w)"

text \<open>
  \<^verbatim>\<open>std::set<MpcPackageInfo, PackagedOnReversed>\<close>. A \<^verbatim>\<open>std::set\<close> with comparator \<open>cmp\<close>
  is the list of its elements in iteration order; \<^verbatim>\<open>insert\<close> puts the element before
  the first one it precedes, and drops it when it meets an element that neither
  precedes it nor is preceded by it. \<open>PackagedOnReversed\<close> is \<^verbatim>\<open>>=\<close> on \<^verbatim>\<open>timePackaged\<close>,
  under which of two elements one always precedes the other: no element is dropped,
  and an element goes before those of the same time.
\<close>

definition PackagedOnReversed :: "MpcPackageInfo \<Rightarrow> MpcPackageInfo \<Rightarrow> bool" where
  "PackagedOnReversed pi1 pi2 = (timePackaged pi1 \<ge> timePackaged pi2)"

fun std_set_insert :: "('a \<Rightarrow> 'a \<Rightarrow> bool) \<Rightarrow> 'a \<Rightarrow> 'a list \<Rightarrow> 'a list" where
  "std_set_insert cmp x [] = [x]"
| "std_set_insert cmp x (y # ys) =
     (if cmp x y then x # y # ys
      else if cmp y x then y # std_set_insert cmp x ys
      else y # ys)"

text \<open>
  The time a package was packaged, as the repository manifest has it: \<^verbatim>\<open>Utils::ToTimeT\<close>
  of the value \<^verbatim>\<open>TimePackaged\<close>, or \<^verbatim>\<open>InvalidTimeT\<close> when the manifest has none.
  \<^verbatim>\<open>Utils::ToTimeT\<close> is library code outside \<^verbatim>\<open>src/\<close> and a parameter: none when it throws.
\<close>

definition manifest_TimePackaged ::
  "(string \<Rightarrow> int option) \<Rightarrow> int \<Rightarrow> Cfg \<Rightarrow> MpcPackageInfo \<Rightarrow> error + int"
where
  "manifest_TimePackaged ToTimeT InvalidTimeT repositoryManifest p =
     (case TryGetValueAsString repositoryManifest (id' p) ''TimePackaged'' of
        Some str \<Rightarrow>
          (case ToTimeT str of
             None \<Rightarrow> Inl (MiKTeXException ''Utils::ToTimeT'')
           | Some t \<Rightarrow> Inr t)
      | None \<Rightarrow> Inr InvalidTimeT)"

text \<open>The first loop of \<^verbatim>\<open>CreateRepositoryInformationFile\<close>: it fills the set.\<close>

fun packagedOnReversed_fill ::
  "(string \<Rightarrow> int option) \<Rightarrow> int \<Rightarrow> Cfg \<Rightarrow> packageTable \<Rightarrow> MpcPackageInfo list \<Rightarrow>
   error + MpcPackageInfo list"
where
  "packagedOnReversed_fill ToTimeT InvalidTimeT repositoryManifest [] packagedOnReversed =
     Inr packagedOnReversed"
| "packagedOnReversed_fill ToTimeT InvalidTimeT repositoryManifest ((k, p) # rest)
     packagedOnReversed =
     (case manifest_TimePackaged ToTimeT InvalidTimeT repositoryManifest p of
        Inl e \<Rightarrow> Inl e
      | Inr t \<Rightarrow>
          packagedOnReversed_fill ToTimeT InvalidTimeT repositoryManifest rest
            (std_set_insert PackagedOnReversed (p\<lparr>timePackaged := t\<rparr>) packagedOnReversed))"

text \<open>The second loop: it builds \<^verbatim>\<open>lastupd\<close> and breaks when the count reaches 20.\<close>

fun lastupd_loop :: "MpcPackageInfo list \<Rightarrow> nat \<Rightarrow> string \<Rightarrow> string" where
  "lastupd_loop [] cnt lastupd = lastupd"
| "lastupd_loop (p # rest) cnt lastupd =
     (let lastupd1 = (if cnt > 0 then lastupd @ '' '' else lastupd) @ id' p
      in if cnt + 1 = 20 then lastupd1 else lastupd_loop rest (cnt + 1) lastupd1)"

text \<open>The strings of a list with one space between them.\<close>

fun join_spaces :: "string list \<Rightarrow> string" where
  "join_spaces [] = []"
| "join_spaces [x] = x"
| "join_spaces (x # y # r) = x @ '' '' @ join_spaces (y # r)"

text \<open>
  \<^verbatim>\<open>version\<close>: the days since 2000, the quotient rounded towards zero as C++ does,
  converted to \<^verbatim>\<open>int\<close>.
\<close>

definition days_since_2000 :: "int \<Rightarrow> int" where
  "days_since_2000 t =
     (let d = t - 946681200;
          q = (if d < 0 then - ((- d) div 86400) else d div 86400)
      in to_int q)"

text \<open>
  The line of a directory entry, given by its name and its size, in the listing that
  is hashed: the size is converted to \<^verbatim>\<open>int\<close> before it is printed.
\<close>

definition listing_line :: "string \<times> 64 word \<Rightarrow> string" where
  "listing_line dirEntry =
     fst dirEntry @ '';'' @ to_string (static_cast_int (snd dirEntry)) @ [CHR 0x0A]"

text \<open>
  The line as the specification words it, \<^verbatim>\<open><name>;<size>\<close> and a newline, with the
  size of the entry.
\<close>

definition spec_listing_line :: "string \<times> 64 word \<Rightarrow> string" where
  "spec_listing_line dirEntry =
     fst dirEntry @ '';'' @ to_string (uint (snd dirEntry)) @ [CHR 0x0A]"

text \<open>
  \<^verbatim>\<open>CreateRepositoryInformationFile\<close>. The repository directory is the list of its
  entries, name and size. \<open>Cfg_Write\<close> gives the bytes that \<^verbatim>\<open>Cfg::Write\<close> puts into the
  file, signed or not as the private key provider says; \<open>ToString\<close> is
  \<^verbatim>\<open>MD5::ToString\<close>. The result is the directory afterwards and the documents written
  to \<^verbatim>\<open>pr.ini\<close>, in the order of the writes.
\<close>

definition CreateRepositoryInformationFile ::
  "PackageCreator \<Rightarrow> 'h MD5Builder \<Rightarrow> (MD5 \<Rightarrow> string) \<Rightarrow> (string \<Rightarrow> int option) \<Rightarrow> int \<Rightarrow>
   (Cfg \<Rightarrow> string) \<Rightarrow> (string \<times> 64 word) list \<Rightarrow> Cfg \<Rightarrow> packageTable \<Rightarrow>
   error + (string \<times> 64 word) list \<times> Cfg list"
where
  "CreateRepositoryInformationFile this md5 ToString ToTimeT InvalidTimeT Cfg_Write
     dir repositoryManifest packageTable =
     (let numberOfPackages = static_cast_int (of_nat (GetSize repositoryManifest))
      in case packagedOnReversed_fill ToTimeT InvalidTimeT repositoryManifest packageTable [] of
           Inl e \<Rightarrow> Inl e
         | Inr packagedOnReversed \<Rightarrow>
             (let lastupd = lastupd_loop packagedOnReversed 0 [];
                  days = days_since_2000 (programStartTime this);
                  cfg1 = PutValue [] ''repository'' ''date'' (to_string (programStartTime this));
                  cfg2 = PutValue cfg1 ''repository'' ''version'' (to_string days);
                  cfg3 = PutValue cfg2 ''repository'' ''lstdigest''
                           (ToString (Final md5 (Init md5)));
                  cfg4 = PutValue cfg3 ''repository'' ''numpkg'' (to_string numberOfPackages);
                  cfg5 = PutValue cfg4 ''repository'' ''lastupd'' lastupd;
                  cfg6 = PutValue cfg5 ''repository'' ''relstate'' (releaseState this);
                  dir1 = filter (\<lambda>e. fst e \<noteq> ''pr.ini'') dir
                           @ [(''pr.ini'', of_nat (length (Cfg_Write cfg6)))];
                  lst = sort (map listing_line dir1);
                  lstDigest = foldl (Update md5) (Init md5) lst;
                  cfg7 = PutValue cfg6 ''repository'' ''lstdigest''
                           (ToString (Final md5 lstDigest));
                  dir2 = map (\<lambda>e. if fst e = ''pr.ini''
                                   then (''pr.ini'', of_nat (length (Cfg_Write cfg7)))
                                   else e) dir1
              in Inr (dir2, [cfg6, cfg7])))"

text \<open>The \<^verbatim>\<open>lstdigest\<close> value of the last document written, none on an error.\<close>

definition written_lstdigest :: "error + (string \<times> 64 word) list \<times> Cfg list \<Rightarrow> string option" where
  "written_lstdigest r =
     (case r of
        Inl e \<Rightarrow> None
      | Inr (d, ws) \<Rightarrow> TryGetValueAsString (last ws) ''repository'' ''lstdigest'')"

text \<open>The \<^verbatim>\<open>lastupd\<close> value of the last document written, none on an error.\<close>

definition written_lastupd :: "error + (string \<times> 64 word) list \<times> Cfg list \<Rightarrow> string option" where
  "written_lastupd r =
     (case r of
        Inl e \<Rightarrow> None
      | Inr (d, ws) \<Rightarrow> TryGetValueAsString (last ws) ''repository'' ''lastupd'')"

text \<open>Example directories, a manifest and a \<^verbatim>\<open>ToTimeT\<close> for the examples.\<close>

definition example_dir :: "(string \<times> 64 word) list" where
  "example_dir = [(''pr.ini'', 99), (''b.tar.lzma'', 7), (''a.tar.lzma'', 10)]"

definition example_big_dir :: "(string \<times> 64 word) list" where
  "example_big_dir = [(''big.tar.lzma'', 2147483648)]"

definition example_manifest :: Cfg where
  "example_manifest =
     [(''a'', [(''TimePackaged'', ''100'')]), (''b'', [(''TimePackaged'', ''200'')]),
      (''c'', [(''TimePackaged'', ''100'')])]"

definition example_ToTimeT :: "string \<Rightarrow> int option" where
  "example_ToTimeT s =
     (if s = ''100'' then Some 100 else if s = ''200'' then Some 200 else None)"

subsection \<open>The archive reconciler\<close>

text \<open>
  A file of the repository: its bytes and its three times. The repository is the list
  of its files by path.
\<close>

record file_state =
  content :: string
  creationTime :: int
  lastAccessTime :: int
  lastWriteTime :: int

type_synonym repository_files = "(string \<times> file_state) list"

text \<open>
  Modelled from the spec: \<^verbatim>\<open>File::SetTimes\<close> is library code that is not in \<^verbatim>\<open>src/\<close>; a
  time of \<^verbatim>\<open>static_cast<time_t>(-1)\<close> leaves that time of the file as it is (section
  4.4, step 5).
\<close>

definition SetTimes :: "string \<Rightarrow> int \<Rightarrow> int \<Rightarrow> int \<Rightarrow> repository_files \<Rightarrow> repository_files" where
  "SetTimes p c a w fs =
     modify p (\<lambda>f. f\<lparr> creationTime := (if c = - 1 then creationTime f else c),
                       lastAccessTime := (if a = - 1 then lastAccessTime f else a),
                       lastWriteTime := (if w = - 1 then lastWriteTime f else w) \<rparr>) fs"

text \<open>
  \<^verbatim>\<open>GetFileNameExtension\<close>. Modelled from the spec: the suffix macros are not in \<^verbatim>\<open>src/\<close>;
  the archives are named \<^verbatim>\<open><id>.tar.lzma\<close>, \<^verbatim>\<open><id>.tar.bz2\<close> and \<^verbatim>\<open><id>.cab\<close> (section 6).
\<close>

definition GetFileNameExtension :: "ArchiveFileType \<Rightarrow> error + string" where
  "GetFileNameExtension archiveFileType' =
     (case archiveFileType' of
        MSCab \<Rightarrow> Inr ''.cab''
      | TarBzip2 \<Rightarrow> Inr ''.tar.bz2''
      | TarLzma \<Rightarrow> Inr ''.tar.lzma''
      | Zip \<Rightarrow> Inr ''.zip''
      | Tar \<Rightarrow> Inr ''.tar''
      | None_type \<Rightarrow> Inl (MiKTeXException ''Unknown archive file type.''))"

text \<open>
  \<^verbatim>\<open>HavePackageArchiveFile\<close>: the archive file and its type; the type is \<open>None_type\<close>,
  and the path is empty, when the function returns false.
\<close>

definition HavePackageArchiveFile ::
  "repository_files \<Rightarrow> string \<Rightarrow> string \<Rightarrow> string \<times> ArchiveFileType"
where
  "HavePackageArchiveFile fs repository packageId =
     (let r0 = ([], None_type);
          cab = AppendExtension (AppendComponent repository packageId) ''.cab'';
          r1 = (if map_of fs cab \<noteq> None then (cab, MSCab) else r0);
          bz2 = AppendExtension (AppendComponent repository packageId) ''.tar.bz2'';
          r2 = (if map_of fs bz2 \<noteq> None then (bz2, TarBzip2) else r1);
          lzma = AppendExtension (AppendComponent repository packageId) ''.tar.lzma'';
          r3 = (if map_of fs lzma \<noteq> None then (lzma, TarLzma) else r2)
      in r3)"

text \<open>
  What is outside the program: \<^verbatim>\<open>MD5::Parse\<close> and \<^verbatim>\<open>Utils::ToTimeT\<close> (none when they
  throw), \<^verbatim>\<open>MD5::FromFile\<close> as a function of the bytes, the digest and the time that the
  package manifest file inside an archive gives when it is extracted and read (none
  when the command fails or the file cannot be read), the bytes of the archive that
  the archiving commands make of a package (none when a command fails), the access
  time that the file system gives a file whose bytes are read (the time of the read,
  or the time the file had, as the file system is mounted), and the times of a file
  made now.
\<close>

record externals =
  parse_md5 :: "string \<Rightarrow> MD5 option"
  to_time :: "string \<Rightarrow> int option"
  hash_file :: "string \<Rightarrow> MD5"
  read_embedded :: "string \<Rightarrow> ArchiveFileType \<Rightarrow> (MD5 \<times> int) option"
  run_archiver :: "MpcPackageInfo \<Rightarrow> ArchiveFileType \<Rightarrow> string option"
  read_access :: "file_state \<Rightarrow> int"
  clock :: int

text \<open>
  Reading the bytes of a file, as \<^verbatim>\<open>MD5::FromFile\<close> and the command of \<^verbatim>\<open>ExtractFile\<close> do:
  the bytes and the other times stay, the access time is the file system's.
  \<^verbatim>\<open>File::Exists\<close> and \<^verbatim>\<open>File::GetSize\<close> read the directory entry only.
\<close>

definition read_file :: "externals \<Rightarrow> string \<Rightarrow> repository_files \<Rightarrow> repository_files" where
  "read_file X p fs = modify p (\<lambda>f. f\<lparr> lastAccessTime := read_access X f \<rparr>) fs"

text \<open>The system commands that \<^verbatim>\<open>ExecuteSystemCommand\<close> runs, in a log.\<close>

datatype command =
    ExtractFile_command string ArchiveFileType string
  | tar_create string
  | tar_append string string
  | CompressArchive_command string ArchiveFileType string

text \<open>
  The test that \<^verbatim>\<open>CreateArchiveFile\<close> makes twice: the manifest has an \<^verbatim>\<open>MD5\<close> for the
  package, it parses to the digest of the package, and the manifest has a
  \<^verbatim>\<open>TimePackaged\<close>. The result is that time, converted, when the test holds.
\<close>

definition manifest_unchanged :: "externals \<Rightarrow> Cfg \<Rightarrow> MpcPackageInfo \<Rightarrow> error + int option" where
  "manifest_unchanged X repositoryManifest packageInfo =
     (case TryGetValueAsString repositoryManifest (id' packageInfo) ''MD5'' of
        None \<Rightarrow> Inr None
      | Some strMD5 \<Rightarrow>
          (case parse_md5 X strMD5 of
             None \<Rightarrow> Inl (MiKTeXException ''MD5::Parse'')
           | Some d \<Rightarrow>
               if d = digest packageInfo then
                 (case TryGetValueAsString repositoryManifest (id' packageInfo)
                         ''TimePackaged'' of
                    None \<Rightarrow> Inr None
                  | Some strTimePackaged \<Rightarrow>
                      (case to_time X strTimePackaged of
                         None \<Rightarrow> Inl (MiKTeXException ''Utils::ToTimeT'')
                       | Some t \<Rightarrow> Inr (Some t)))
               else Inr None))"

text \<open>
  The first part of \<^verbatim>\<open>CreateArchiveFile\<close>, up to \<^verbatim>\<open>if (!reuseExisting)\<close>: it gives
  \<^verbatim>\<open>reuseExisting\<close>, the package information, the archive file, its type, the
  repository and the log. The repository is as it was when the manifest decides;
  otherwise \<^verbatim>\<open>ExtractFile\<close> has read the archive.
\<close>

definition reuse_test ::
  "PackageCreator \<Rightarrow> externals \<Rightarrow> MpcPackageInfo \<Rightarrow> string \<Rightarrow> Cfg \<Rightarrow> repository_files \<Rightarrow>
   command list \<Rightarrow>
   error + bool \<times> MpcPackageInfo \<times> string \<times> ArchiveFileType \<times> repository_files \<times> command list"
where
  "reuse_test this X packageInfo repository repositoryManifest fs cmds =
     (let found = HavePackageArchiveFile fs repository (id' packageInfo);
          archiveFile = fst found;
          archiveFileType' = snd found
      in if archiveFileType' \<noteq> None_type then
           (case manifest_unchanged X repositoryManifest packageInfo of
              Inl e \<Rightarrow> Inl e
            | Inr (Some t) \<Rightarrow>
                Inr (True, packageInfo\<lparr>timePackaged := t\<rparr>, archiveFile, archiveFileType',
                     fs, cmds)
            | Inr None \<Rightarrow>
                (let filter' =
                       AppendExtension
                         (AppendComponent
                            (AppendComponent (texmfPrefix this) ''tpm/packages'')
                            (id' packageInfo)) ''.tpm'';
                     cmds1 = cmds @ [ExtractFile_command archiveFile archiveFileType' filter'];
                     fs1 = read_file X archiveFile fs
                 in case map_of fs archiveFile of
                      None \<Rightarrow> Inl (FatalError ''A system command failed.'')
                    | Some f \<Rightarrow>
                        (case read_embedded X (content f) archiveFileType' of
                           None \<Rightarrow> Inl (FatalError ''A system command failed.'')
                         | Some (dg, t) \<Rightarrow>
                             if digest packageInfo = dg
                             then Inr (True, packageInfo\<lparr>timePackaged := t\<rparr>, archiveFile,
                                       archiveFileType', fs1, cmds1)
                             else Inr (False, packageInfo, archiveFile, None_type, fs1,
                                       cmds1))))
         else Inr (False, packageInfo, archiveFile, archiveFileType', fs, cmds))"

text \<open>
  The block under \<^verbatim>\<open>if (!reuseExisting)\<close>: a new archive of the default type. The package
  manifest file it writes is in the staging directory, not in the repository.
  \<open>haveFiles\<close> says whether the staging directory has a \<^verbatim>\<open>Files\<close> directory when
  \<^verbatim>\<open>CreateArchiveFile\<close> is called. The block changes into the staging directory and
  creates \<^verbatim>\<open>path/Files/prefix/tpm/packages\<close> before it tests \<^verbatim>\<open>Directory::Exists("Files")\<close>:
  with an absolute \<^verbatim>\<open>path\<close> that makes \<^verbatim>\<open>Files\<close> in the staging directory, so the test
  holds; a relative \<^verbatim>\<open>path\<close> is resolved from the new current directory, and the
  directories are made below the staging directory (a staging directory of
  \<^verbatim>\<open>CollectPackages\<close> is \<^verbatim>\<open>stagingRoot/name\<close>, which is not the current directory then).
  Modelled from the spec: \<^verbatim>\<open>IsAbsolute\<close>, a path that starts with the delimiter.
\<close>

definition IsAbsolute :: "string \<Rightarrow> bool" where
  "IsAbsolute p = (take 1 p = ''/'')"

definition rebuild ::
  "PackageCreator \<Rightarrow> externals \<Rightarrow> bool \<Rightarrow> MpcPackageInfo \<Rightarrow> string \<Rightarrow> Cfg \<Rightarrow> repository_files \<Rightarrow>
   command list \<Rightarrow> error + MpcPackageInfo \<times> string \<times> ArchiveFileType \<times> repository_files \<times> command list"
where
  "rebuild this X haveFiles packageInfo repository repositoryManifest fs cmds =
     (let archiveFileType' = defaultArchiveFileType this
      in case GetFileNameExtension archiveFileType' of
           Inl e \<Rightarrow> Inl e
         | Inr ext \<Rightarrow>
             (case manifest_unchanged X repositoryManifest packageInfo of
                Inl e \<Rightarrow> Inl e
              | Inr kept \<Rightarrow>
                  (let packageInfo1 =
                         packageInfo\<lparr>timePackaged :=
                           (case kept of Some t \<Rightarrow> t | None \<Rightarrow> programStartTime this)\<rparr>;
                       tarFile =
                         AppendExtension (AppendComponent repository (id' packageInfo)) ''.tar'';
                       archiveFile =
                         AppendExtension (AppendComponent repository (id' packageInfo)) ext;
                       Files_exists = (IsAbsolute (path packageInfo) \<or> haveFiles);
                       cmds1 = cmds @ [tar_create tarFile]
                                @ (if Files_exists then [tar_append tarFile (texmfPrefix this)]
                                   else [])
                   in if archiveFileType' \<noteq> TarBzip2 \<and> archiveFileType' \<noteq> TarLzma
                      then Inl (FatalError ''Unsupported archive file type.'')
                      else
                        (case run_archiver X packageInfo1 archiveFileType' of
                           None \<Rightarrow> Inl (FatalError ''A system command failed.'')
                         | Some bytes \<Rightarrow>
                             Inr (packageInfo1, archiveFile, archiveFileType',
                                  AList.update archiveFile
                                    \<lparr> content = bytes, creationTime = clock X,
                                      lastAccessTime = clock X, lastWriteTime = clock X \<rparr>
                                    (AList.delete tarFile fs),
                                  cmds1 @ [CompressArchive_command tarFile archiveFileType'
                                            archiveFile])))))"

text \<open>
  \<^verbatim>\<open>CreateArchiveFile\<close>: the archive type it returns, the package information, the
  repository and the log afterwards. \<^verbatim>\<open>MD5::FromFile\<close> reads the archive before
  \<^verbatim>\<open>File::SetTimes\<close> is called with \<open>-1\<close> for the access time.
\<close>

definition CreateArchiveFile ::
  "PackageCreator \<Rightarrow> externals \<Rightarrow> bool \<Rightarrow> MpcPackageInfo \<Rightarrow> string \<Rightarrow> Cfg \<Rightarrow> repository_files \<Rightarrow>
   command list \<Rightarrow> error + ArchiveFileType \<times> MpcPackageInfo \<times> repository_files \<times> command list"
where
  "CreateArchiveFile this X haveFiles packageInfo repository repositoryManifest fs cmds =
     (case reuse_test this X packageInfo repository repositoryManifest fs cmds of
        Inl e \<Rightarrow> Inl e
      | Inr (reuseExisting, packageInfo1, archiveFile1, archiveFileType1, fs1, cmds1) \<Rightarrow>
          (case (if reuseExisting
                 then Inr (packageInfo1, archiveFile1, archiveFileType1, fs1, cmds1)
                 else rebuild this X haveFiles packageInfo1 repository repositoryManifest fs1
                        cmds1) of
             Inl e \<Rightarrow> Inl e
           | Inr (packageInfo2, archiveFile, archiveFileType', fs2, cmds2) \<Rightarrow>
               (case map_of fs2 archiveFile of
                  None \<Rightarrow> Inl (MiKTeXException ''File::GetSize'')
                | Some f \<Rightarrow>
                    Inr (archiveFileType',
                         packageInfo2\<lparr> archiveFileSize := of_nat (length (content f)),
                                       archiveFileDigest := hash_file X (content f) \<rparr>,
                         SetTimes archiveFile
                           (if reuseExisting then - 1 else programStartTime this) (- 1)
                           (timePackaged packageInfo2) (read_file X archiveFile fs2),
                         cmds2))))"

text \<open>An example repository with one archive, its manifest and the externals.\<close>

definition example_repository :: repository_files where
  "example_repository =
     [(''/repo/foo.tar.lzma'',
       \<lparr> content = ''archive'', creationTime = 5, lastAccessTime = 6, lastWriteTime = 7 \<rparr>)]"

definition example_repository_manifest :: Cfg where
  "example_repository_manifest =
     [(''foo'', [(''MD5'', ''00000000000000000000000000000000''),
                 (''TimePackaged'', ''1700000000'')])]"

definition example_externals :: externals where
  "example_externals =
     \<lparr> parse_md5 = (\<lambda>s. if s = ''00000000000000000000000000000000''
                          then Some MD5_default else None),
       to_time = (\<lambda>s. if s = ''1700000000'' then Some 1700000000 else None),
       hash_file = (\<lambda>bytes. bytes),
       read_embedded = (\<lambda>bytes t. None),
       run_archiver = (\<lambda>p t. None),
       read_access = (\<lambda>f. 1800000000),
       clock = 1800000000 \<rparr>"

text \<open>The same on a file system that leaves the access time of a file that is read.\<close>

definition example_externals_noatime :: externals where
  "example_externals_noatime = example_externals\<lparr> read_access := lastAccessTime \<rparr>"

section \<open>Properties\<close>

subsection \<open>The package table as a map\<close>

lemma map_of_std_map_assign:
  "map_of (std_map_assign (<) k v m) k' = (if k' = k then Some v else map_of m k')"
  by (induction m) (auto simp: not_less)

lemma map_of_table_assign:
  "map_of (table_assign k v m) k' = (if k' = k then Some v else map_of m k')"
  by (simp add: table_assign_def map_of_std_map_assign)

lemma keys_std_map_assign:
  "set (map fst (std_map_assign (<) k v m)) = insert k (set (map fst m))"
proof (induction m)
  case Nil
  then show ?case by simp
next
  case (Cons a m)
  obtain k' v' where a: "a = (k', v')" by (cases a)
  have "k = k'" if "\<not> k < k'" "\<not> k' < k" using that by simp
  then show ?case using Cons a by (auto simp del: set_map)
qed

lemma sorted_std_map_assign:
  "sorted_wrt (<) (map fst m) \<Longrightarrow> sorted_wrt (<) (map fst (std_map_assign (<) k (v::'v) m))"
proof (induction m)
  case Nil
  then show ?case by simp
next
  case (Cons a m)
  obtain k' v' where a: "a = (k', v')" by (cases a)
  have "\<forall>x\<in>set (map fst (std_map_assign (<) k v m)). k' < x" if "k' < k"
    unfolding keys_std_map_assign using Cons.prems that a by auto
  then show ?case using Cons a by (auto simp: not_less)
qed

lemma map_of_modify:
  "map_of (modify k g m) k' = (if k' = k then map_option g (map_of m k) else map_of m k')"
  by (induction m) auto

lemma map_fst_modify: "map fst (modify k g m) = map fst m"
  by (induction m) auto

lemma CollectPackages_loop_append:
  "CollectPackages_loop this parse delim invT root (xs @ ys) s =
     (case CollectPackages_loop this parse delim invT root xs s of
        Inl e \<Rightarrow> Inl e
      | Inr s' \<Rightarrow> CollectPackages_loop this parse delim invT root ys s')"
proof (induction xs arbitrary: s)
  case Nil
  then show ?case by simp
next
  case (Cons a xs)
  obtain tbl ws where s: "s = (tbl, ws)" by (cases s)
  show ?case
  proof (cases a)
    case (OtherFile name)
    then show ?thesis using Cons by simp
  next
    case (StagingDir name d)
    then show ?thesis using Cons s by (simp split: option.splits sum.splits)
  qed
qed

lemma CollectPackages_loop_no_ini:
  "package_ini d = None \<Longrightarrow>
   CollectPackages_loop this parse delim invT root (StagingDir name d # es) s =
   CollectPackages_loop this parse delim invT root es s"
  by (cases s) simp

subsection \<open>What collection keeps\<close>

lemma requiredBy_read_values [simp]:
  "requiredBy (read_values delim invT sd d cfg i n dg) = []"
  by (simp add: read_values_def Let_def MpcPackageInfo_default_def)

lemma id_read_values [simp]:
  "id' (read_values delim invT sd d cfg i n dg) = i"
  by (simp add: read_values_def Let_def MpcPackageInfo_default_def)

lemma InitializePackageInfo_Inr:
  assumes "InitializePackageInfo parse delim invT sd d = Inr p"
  shows "package_ini d \<noteq> None" and "requiredBy p = []"
proof -
  obtain cfg i n dg where "package_ini d = Some cfg"
    and p: "p = read_values delim invT sd d cfg i n dg"
    using assms unfolding InitializePackageInfo_def
    by (cases "package_ini d") (auto split: option.splits)
  then show "package_ini d \<noteq> None" and "requiredBy p = []" by simp_all
qed

lemma CollectFiles_frame:
  "id' (CollectFiles pre sub es p) = id' p \<and> requiredBy (CollectFiles pre sub es p) = requiredBy p
   \<and> requiredPackages (CollectFiles pre sub es p) = requiredPackages p"
  "id' (CollectFiles_entry pre sub e p) = id' p \<and> requiredBy (CollectFiles_entry pre sub e p) = requiredBy p
   \<and> requiredPackages (CollectFiles_entry pre sub e p) = requiredPackages p"
  by (induction pre sub es p and pre sub e p rule: CollectFiles_CollectFiles_entry.induct)
     (simp_all add: Let_def)

lemma CollectPackage_frame:
  "id' (CollectPackage pre d p) = id' p"
  "requiredBy (CollectPackage pre d p) = requiredBy p"
  "requiredPackages (CollectPackage pre d p) = requiredPackages p"
  by (simp_all add: CollectPackage_def Let_def CollectFiles_frame split: option.splits)

lemma IsToBeIgnored_id: "id' p = id' q \<Longrightarrow> IsToBeIgnored this p = IsToBeIgnored this q"
  by (simp add: IsToBeIgnored_def GetPackageLevel_def)

lemma list_all_std_map_assign:
  "list_all P m \<Longrightarrow> P (k, v) \<Longrightarrow> (\<And>k' v'. \<not> k < k' \<Longrightarrow> \<not> k' < k \<Longrightarrow> P (k', v))
   \<Longrightarrow> list_all P (std_map_assign (<) k v m)"
  by (induction m) auto

lemma collected_assign:
  assumes "collected this tbl" "id' p = k" "requiredBy p = []" "\<not> IsToBeIgnored this p"
  shows "collected this (table_assign k p tbl)"
proof -
  have "list_all (\<lambda>(k, p). id' p = k \<and> requiredBy p = [] \<and> \<not> IsToBeIgnored this p)
          (std_map_assign (<) k p tbl)"
    using assms by (intro list_all_std_map_assign) (auto simp: collected_def)
  then show ?thesis
    using assms(1) by (simp add: collected_def table_assign_def sorted_std_map_assign)
qed

lemma collected_loop:
  "collected this tbl \<Longrightarrow>
   CollectPackages_loop this parse delim invT root es (tbl, ws) = Inr (tbl', ws') \<Longrightarrow>
   collected this tbl'"
proof (induction es arbitrary: tbl ws)
  case Nil
  then show ?case by simp
next
  case (Cons a es)
  show ?case
  proof (cases a)
    case (OtherFile name)
    then show ?thesis using Cons by simp
  next
    case (StagingDir name d)
    show ?thesis
    proof (cases "package_ini d")
      case None
      then show ?thesis using Cons StagingDir by simp
    next
      case (Some cfg)
      show ?thesis
      proof (cases "InitializePackageInfo parse delim invT (AppendComponent root name) d")
        case (Inl e)
        then show ?thesis using Cons.prems StagingDir Some by simp
      next
        case (Inr p)
        let ?q = "CollectPackage (texmfPrefix this) d p"
        have q: "id' ?q = id' p" "requiredBy ?q = []"
          using InitializePackageInfo_Inr(2)[OF Inr] by (simp_all add: CollectPackage_frame)
        have "collected this (table_assign (id' p) ?q tbl)" if "\<not> IsToBeIgnored this p"
          using that q IsToBeIgnored_id[of ?q p this] Cons.prems(1)
          by (intro collected_assign) simp_all
        then show ?thesis
          using Cons.prems Cons.IH StagingDir Some Inr
          by (auto split: if_splits)
      qed
    qed
  qed
qed

lemma collected_not_ignored:
  assumes "collected this tbl" "map_of tbl k = Some v" "id' p = k"
  shows "\<not> IsToBeIgnored this p"
proof -
  have "(k, v) \<in> set tbl" using assms(2) by (rule map_of_SomeD)
  then have "id' v = k \<and> \<not> IsToBeIgnored this v"
    using assms(1) by (auto simp: collected_def list_all_iff)
  then show ?thesis using IsToBeIgnored_id[of p v this] assms(3) by simp
qed

lemma CollectPackages_loop_keeps:
  "CollectPackages_loop this parse delim invT root es (tbl, ws) = Inr (tbl', ws') \<Longrightarrow>
   map_of tbl k = Some v \<Longrightarrow> map_of tbl' k = Some v"
proof (induction es arbitrary: tbl ws)
  case Nil
  then show ?case by simp
next
  case (Cons a es)
  show ?case
  proof (cases a)
    case (OtherFile name)
    then show ?thesis using Cons by simp
  next
    case (StagingDir name d)
    have new: "map_of (table_assign i q tbl) k = Some v" if "map_of tbl i = None" for i q
      using that Cons.prems(2) by (auto simp: map_of_table_assign)
    show ?thesis
      using Cons.prems Cons.IH StagingDir new
      by (simp split: option.splits sum.splits if_splits)
  qed
qed

lemma ReadList_entry_keeps:
  "ReadList_entry dflt ch lpsz s = Inr s' \<Longrightarrow>
   map_of (fst s) k = Some sp \<Longrightarrow> map_of (fst s') k = Some sp"
  by (auto simp: ReadList_entry_def Let_def map_of_table_assign split: option.splits)

lemma ReadList_lines_keeps:
  "ReadList_lines n files dflt ls s = Inr s' \<Longrightarrow>
   map_of (fst s) k = Some sp \<Longrightarrow> map_of (fst s') k = Some sp"
proof (induction n files dflt ls s arbitrary: s' rule: ReadList_lines.induct)
  case (1 n files dflt s)
  then show ?case by simp
next
  case (2 n files dflt rest s)
  then show ?case by simp
next
  case (3 n files dflt ch cs rest s)
  show ?case
  proof (cases "skip_blanks cs = []")
    case True
    then show ?thesis using 3 by simp
  next
    case nonblank: False
    show ?thesis
    proof (cases "ch = CHR ''@''")
      case True
      then obtain n' ls s1 where n: "n = Suc n'" and f: "files (skip_blanks cs) = Some ls"
        and r1: "ReadList_lines n' files dflt ls s = Inr s1"
        and r2: "ReadList_lines n files dflt rest s1 = Inr s'"
        using "3.prems"(1) nonblank
        by (auto split: nat.splits option.splits sum.splits)
      have "map_of (fst s1) k = Some sp"
        using "3.IH"(2)[OF nonblank True n f r1 "3.prems"(2)] .
      then show ?thesis
        using "3.IH"(3)[OF nonblank True n f r1 r2] by simp
    next
      case noinc: False
      show ?thesis
      proof (cases "is_level ch")
        case False
        then show ?thesis using 3 nonblank noinc by simp
      next
        case True
        then obtain s1 where r1: "ReadList_entry dflt ch (skip_blanks cs) s = Inr s1"
          and r2: "ReadList_lines n files dflt rest s1 = Inr s'"
          using "3.prems"(1) nonblank noinc by (auto split: sum.splits)
        have "map_of (fst s1) k = Some sp"
          using ReadList_entry_keeps[OF r1 "3.prems"(2)] .
        then show ?thesis
          using "3.IH"(5) nonblank noinc True r1 r2 by simp
      qed
    qed
  qed
qed

lemma example_Initialize:
  "InitializePackageInfo (\<lambda>s. None) (CHR '':'') (- 1) (AppendComponent ''/stage'' ''foo'') example_staging
     = Inr example_foo"
  by (simp add: InitializePackageInfo_def example_staging_def example_ini_def example_foo_def
      TryGetValueAsString_def AppendComponent_def)

lemma example_foo_facts: "id' example_foo = ''foo''" "requiredBy example_foo = []"
  "\<not> IsToBeIgnored example_creator example_foo"
  by (simp_all add: example_foo_def IsToBeIgnored_def GetPackageLevel_def example_creator_def)

subsection \<open>Skipped staging roots and directories\<close>

text \<open>
  Claim C10. \<^verbatim>\<open>CollectPackages\<close> skips a staging root that does not exist (its listing
  is none): it returns the package table and the warnings as they were, with no
  error. It also skips a sub-directory with no \<^verbatim>\<open>package.ini\<close>: a root that holds only
  such a directory leaves the state as it was, and wherever such a directory stands
  in the listing, the result (error or not, table, warnings) is that of the listing
  without it.
\<close>

theorem CollectPackages_skips_silently:
  "CollectPackages this parse delim invT root None s = Inr s \<and>
   (package_ini d = None \<longrightarrow>
      CollectPackages this parse delim invT root (Some [StagingDir name d]) s = Inr s \<and>
      CollectPackages this parse delim invT root (Some (pre @ StagingDir name d # es)) s =
      CollectPackages this parse delim invT root (Some (pre @ es)) s)"
  by (simp add: CollectPackages_def CollectPackages_loop_append CollectPackages_loop_no_ini
        split: sum.splits)

theorem CollectPackages_skips_silently_witness:
  "package_ini example_empty_dir = None \<and>
   CollectPackages example_creator (\<lambda>s. None) (CHR '':'') (- 1) ''/stage''
     (Some [StagingDir ''junk'' example_empty_dir]) ([], []) = Inr ([], [])"
  using CollectPackages_skips_silently
    [where d = example_empty_dir and this = example_creator and parse = "\<lambda>s. None"
       and delim = "CHR '':''" and invT = "- 1" and root = "''/stage''" and name = "''junk''"
       and s = "([], [])"]
  by (simp add: example_empty_dir_def)

subsection \<open>Duplicate package ids\<close>

text \<open>
  Claim C8. When a staging directory reads as a package whose id is already in a
  collected package table, the loop goes on with the table as it was and the warning
  \<open>AlreadyCollected\<close> added. When a package-list line starts with a level and its first
  token is an id already in the list map, the loop goes on with the map as it was
  and the warning \<open>IgnoringListLine\<close> added, whatever follows the id on the line. In
  both loops an entry once stored is still there, unchanged, when the loop returns.
  The empty table is collected and the loop keeps a table collected.
\<close>

theorem duplicate_id_first_wins:
  "(collected this tbl \<and>
    InitializePackageInfo parse delim invT (AppendComponent root name) d = Inr packageInfo \<and>
    map_of tbl (id' packageInfo) = Some first \<longrightarrow>
      CollectPackages_loop this parse delim invT root (StagingDir name d # es) (tbl, ws) =
      CollectPackages_loop this parse delim invT root es
        (tbl, ws @ [AlreadyCollected (id' packageInfo)]))
   \<and> (is_level ch \<and> skip_blanks cs \<noteq> [] \<and>
       Tokenizer (skip_blanks cs) (CHR '';'') = packageId # others \<and>
       map_of m packageId = Some spec \<longrightarrow>
         ReadList_lines n files dflt ((ch # cs) # rest) (m, ws) =
         ReadList_lines n files dflt rest (m, ws @ [IgnoringListLine ch packageId (level spec)]))
   \<and> (CollectPackages_loop this parse delim invT root es (tbl, ws) = Inr (tbl', ws') \<and>
       map_of tbl k = Some first \<longrightarrow> map_of tbl' k = Some first)
   \<and> (ReadList_lines n files dflt ls (m, ws) = Inr (m', ws') \<and> map_of m k = Some spec \<longrightarrow>
         map_of m' k = Some spec)
   \<and> collected this []
   \<and> (collected this tbl \<and>
       CollectPackages_loop this parse delim invT root es (tbl, ws) = Inr (tbl', ws') \<longrightarrow>
         collected this tbl')"
proof (intro conjI impI)
  assume a: "collected this tbl \<and>
    InitializePackageInfo parse delim invT (AppendComponent root name) d = Inr packageInfo \<and>
    map_of tbl (id' packageInfo) = Some first"
  then have "\<not> IsToBeIgnored this packageInfo"
    using collected_not_ignored by blast
  moreover have "package_ini d \<noteq> None"
    using a InitializePackageInfo_Inr(1) by blast
  ultimately show "CollectPackages_loop this parse delim invT root (StagingDir name d # es) (tbl, ws) =
      CollectPackages_loop this parse delim invT root es
        (tbl, ws @ [AlreadyCollected (id' packageInfo)])"
    using a by auto
next
  assume a: "is_level ch \<and> skip_blanks cs \<noteq> [] \<and>
       Tokenizer (skip_blanks cs) (CHR '';'') = packageId # others \<and>
       map_of m packageId = Some spec"
  then have "ch \<noteq> CHR ''@''" by (auto simp: is_level_def)
  then show "ReadList_lines n files dflt ((ch # cs) # rest) (m, ws) =
         ReadList_lines n files dflt rest (m, ws @ [IgnoringListLine ch packageId (level spec)])"
    using a by (simp add: ReadList_entry_def)
next
  assume "CollectPackages_loop this parse delim invT root es (tbl, ws) = Inr (tbl', ws') \<and>
       map_of tbl k = Some first"
  then show "map_of tbl' k = Some first"
    using CollectPackages_loop_keeps by blast
next
  assume "ReadList_lines n files dflt ls (m, ws) = Inr (m', ws') \<and> map_of m k = Some spec"
  then show "map_of m' k = Some spec"
    using ReadList_lines_keeps[of n files dflt ls "(m, ws)" "(m', ws')" k spec] by simp
next
  show "collected this []" by (simp add: collected_def)
next
  assume "collected this tbl \<and>
       CollectPackages_loop this parse delim invT root es (tbl, ws) = Inr (tbl', ws')"
  then show "collected this tbl'" using collected_loop by blast
qed

theorem duplicate_id_first_wins_witness:
  "collected example_creator [(''foo'', example_foo)] \<and>
   InitializePackageInfo (\<lambda>s. None) (CHR '':'') (- 1) (AppendComponent ''/stage'' ''foo'')
     example_staging = Inr example_foo \<and>
   map_of [(''foo'', example_foo)] (id' example_foo) = Some example_foo \<and>
   CollectPackages_loop example_creator (\<lambda>s. None) (CHR '':'') (- 1) ''/stage''
     [StagingDir ''foo'' example_staging] ([(''foo'', example_foo)], [])
     = Inr ([(''foo'', example_foo)], [AlreadyCollected ''foo'']) \<and>
   is_level (CHR ''M'') \<and> skip_blanks '' foo;Bogus'' \<noteq> [] \<and>
   Tokenizer (skip_blanks '' foo;Bogus'') (CHR '';'') = [''foo'', ''Bogus''] \<and>
   ReadList_lines 0 (\<lambda>f. None) TarLzma [''M foo;Bogus'']
     ([(''foo'', \<lparr>spec_id = ''foo'', level = CHR ''S'', archiveFileType = TarLzma\<rparr>)], [])
     = Inr ([(''foo'', \<lparr>spec_id = ''foo'', level = CHR ''S'', archiveFileType = TarLzma\<rparr>)],
            [IgnoringListLine (CHR ''M'') ''foo'' (CHR ''S'')])"
proof -
  have c: "collected example_creator [(''foo'', example_foo)]"
    by (simp add: collected_def example_foo_facts)
  have t: "Tokenizer (skip_blanks '' foo;Bogus'') (CHR '';'') = [''foo'', ''Bogus'']"
    by (simp add: Tokenizer_def skip_blanks_def)
  have l: "is_level (CHR ''M'')" "skip_blanks '' foo;Bogus'' \<noteq> []"
    by (simp_all add: is_level_def skip_blanks_def)
  note th = duplicate_id_first_wins
    [where this = example_creator and tbl = "[(''foo'', example_foo)]"
       and parse = "\<lambda>s. None" and delim = "CHR '':''" and invT = "- 1" and root = "''/stage''"
       and name = "''foo''" and d = example_staging and packageInfo = example_foo
       and first = example_foo and es = "[]" and ws = "[]"
       and ch = "CHR ''M''" and cs = "'' foo;Bogus''" and packageId = "''foo''"
       and others = "[''Bogus'']" and n = 0 and files = "\<lambda>f. None" and dflt = TarLzma
       and rest = "[]"
       and m = "[(''foo'', \<lparr>spec_id = ''foo'', level = CHR ''S'', archiveFileType = TarLzma\<rparr>)]"
       and spec = "\<lparr>spec_id = ''foo'', level = CHR ''S'', archiveFileType = TarLzma\<rparr>"]
  show ?thesis
    using th c t l example_Initialize example_foo_facts by simp
qed

subsection \<open>Create-package mode: the staging version wins\<close>

text \<open>
  Claim C9. In create-package mode, when the repository is given, its manifest and
  its package manifests load and the staging directory reads as a package, the run
  reaches \<^verbatim>\<open>UpdateRepository\<close> with a package table that holds, under the id of the
  staging package, that package as collected from the staging directory, whatever
  the repository had under this id; every other id has what was loaded. The
  staging-collection pass differs: a staging directory whose id is already in a
  collected table leaves the table as it was and adds a warning.
\<close>

theorem create_package_staging_wins:
  "(repository \<noteq> [] \<and> loadedManifest = Inr rm \<and> manifestFiles = Inr fs \<and>
    InitializePackageInfo parse delim invT stagingDir d = Inr packageInfo \<longrightarrow>
      (\<exists>tbl. Run_create_package this parse delim invT repository loadedManifest manifestFiles
               stagingDir d = Inr (rm, tbl) \<and>
             map_of tbl (id' packageInfo) = Some (CollectPackage (texmfPrefix this) d packageInfo) \<and>
             (\<forall>k. k \<noteq> id' packageInfo \<longrightarrow>
                  map_of tbl k = map_of (LoadPackageManifests_loop fs []) k)))
   \<and> (collected this collectedTable \<and>
       InitializePackageInfo parse delim invT (AppendComponent root name) d = Inr packageInfo \<and>
       map_of collectedTable (id' packageInfo) = Some old \<longrightarrow>
         CollectPackages_loop this parse delim invT root [StagingDir name d] (collectedTable, ws) =
           Inr (collectedTable, ws @ [AlreadyCollected (id' packageInfo)]))"
proof (intro conjI impI)
  assume a: "repository \<noteq> [] \<and> loadedManifest = Inr rm \<and> manifestFiles = Inr fs \<and>
    InitializePackageInfo parse delim invT stagingDir d = Inr packageInfo"
  let ?p = "CollectPackage (texmfPrefix this) d packageInfo"
  let ?tbl = "table_assign (id' ?p) ?p (LoadPackageManifests_loop fs [])"
  have "Run_create_package this parse delim invT repository loadedManifest manifestFiles
          stagingDir d = Inr (rm, ?tbl)"
    using a by (simp add: Run_create_package_def Let_def)
  moreover have "map_of ?tbl (id' packageInfo) = Some ?p"
    by (simp add: map_of_table_assign CollectPackage_frame)
  moreover have "\<forall>k. k \<noteq> id' packageInfo \<longrightarrow>
                  map_of ?tbl k = map_of (LoadPackageManifests_loop fs []) k"
    by (simp add: map_of_table_assign CollectPackage_frame)
  ultimately show "\<exists>tbl. Run_create_package this parse delim invT repository loadedManifest
               manifestFiles stagingDir d = Inr (rm, tbl) \<and>
             map_of tbl (id' packageInfo) = Some ?p \<and>
             (\<forall>k. k \<noteq> id' packageInfo \<longrightarrow>
                  map_of tbl k = map_of (LoadPackageManifests_loop fs []) k)"
    by blast
next
  assume a: "collected this collectedTable \<and>
       InitializePackageInfo parse delim invT (AppendComponent root name) d = Inr packageInfo \<and>
       map_of collectedTable (id' packageInfo) = Some old"
  then have "\<not> IsToBeIgnored this packageInfo"
    using collected_not_ignored by blast
  moreover have "package_ini d \<noteq> None"
    using a InitializePackageInfo_Inr(1) by blast
  ultimately show "CollectPackages_loop this parse delim invT root [StagingDir name d] (collectedTable, ws) =
           Inr (collectedTable, ws @ [AlreadyCollected (id' packageInfo)])"
    using a by auto
qed

theorem create_package_staging_wins_witness:
  "''/repo'' \<noteq> [] \<and>
   InitializePackageInfo (\<lambda>s. None) (CHR '':'') (- 1) ''/stage/foo'' example_staging
     = Inr example_foo \<and>
   map_of (LoadPackageManifests_loop [(''foo'', example_old)] []) ''foo'' = Some example_old \<and>
   (\<exists>tbl. Run_create_package example_creator (\<lambda>s. None) (CHR '':'') (- 1) ''/repo'' (Inr [])
            (Inr [(''foo'', example_old)]) ''/stage/foo'' example_staging = Inr ([], tbl) \<and>
          map_of tbl ''foo'' = Some (CollectPackage ''texmf'' example_staging example_foo)) \<and>
   collected example_creator [(''foo'', example_foo)] \<and>
   CollectPackages_loop example_creator (\<lambda>s. None) (CHR '':'') (- 1) ''/stage''
     [StagingDir ''foo'' example_staging] ([(''foo'', example_foo)], [])
     = Inr ([(''foo'', example_foo)], [AlreadyCollected ''foo''])"
proof -
  have i: "InitializePackageInfo (\<lambda>s. None) (CHR '':'') (- 1) ''/stage/foo'' example_staging
     = Inr example_foo"
    using example_Initialize by (simp add: AppendComponent_def)
  have l: "map_of (LoadPackageManifests_loop [(''foo'', example_old)] []) ''foo'' = Some example_old"
    by (simp add: table_assign_def example_old_def)
  have c: "collected example_creator [(''foo'', example_foo)]"
    by (simp add: collected_def example_foo_facts)
  note th = create_package_staging_wins
    [where repository = "''/repo''" and loadedManifest = "Inr []" and rm = "[]"
       and manifestFiles = "Inr [(''foo'', example_old)]" and fs = "[(''foo'', example_old)]"
       and parse = "\<lambda>s. None" and delim = "CHR '':''" and invT = "- 1"
       and stagingDir = "''/stage/foo''" and d = example_staging and packageInfo = example_foo
       and this = example_creator and collectedTable = "[(''foo'', example_foo)]" and root = "''/stage''"
       and name = "''foo''" and old = example_foo and ws = "[]"]
  have t: "texmfPrefix example_creator = ''texmf''" by (simp add: example_creator_def)
  have A: "\<exists>tbl. Run_create_package example_creator (\<lambda>s. None) (CHR '':'') (- 1) ''/repo''
            (Inr []) (Inr [(''foo'', example_old)]) ''/stage/foo'' example_staging = Inr ([], tbl) \<and>
          map_of tbl ''foo'' = Some (CollectPackage ''texmf'' example_staging example_foo)"
    using th i example_foo_facts t by auto
  have B: "CollectPackages_loop example_creator (\<lambda>s. None) (CHR '':'') (- 1) ''/stage''
     [StagingDir ''foo'' example_staging] ([(''foo'', example_foo)], [])
     = Inr ([(''foo'', example_foo)], [AlreadyCollected ''foo''])"
    using th c example_Initialize example_foo_facts by auto
  show ?thesis
    using A B i l c by blast
qed

subsection \<open>The categorizer\<close>

lemma collected_staged: "collected this tbl \<Longrightarrow> staged tbl"
  by (auto simp: collected_def staged_def list_all_iff)

lemma modify_absent: "map_of m k = None \<Longrightarrow> modify k g m = m"
  by (induction m) (auto split: if_splits)

lemma map_fst_determine_requires:
  "map fst (fst (determine_requires pid reqs (tbl, ws))) = map fst tbl"
  by (induction reqs arbitrary: tbl ws) (auto simp: map_fst_modify split: option.splits)

lemma map_of_determine_requires:
  "map_of (fst (determine_requires pid reqs (tbl, ws))) q =
     map_option (\<lambda>p. p\<lparr>requiredBy := requiredBy p @ replicate (count_list reqs q) pid\<rparr>)
       (map_of tbl q)"
proof (induction reqs arbitrary: tbl ws)
  case Nil
  show ?case by (cases "map_of tbl q") simp_all
next
  case (Cons req reqs)
  show ?case
  proof (cases "map_of tbl req")
    case None
    then show ?thesis using Cons[of tbl] by (cases "q = req") auto
  next
    case (Some it3)
    have "map_of (modify req (push_requiredBy pid) tbl) q =
            (if q = req then map_option (push_requiredBy pid) (map_of tbl req) else map_of tbl q)"
      by (simp add: map_of_modify)
    then show ?thesis
      using Some Cons[of "modify req (push_requiredBy pid) tbl" ws]
      by (cases "map_of tbl q")
         (auto simp: push_requiredBy_def replicate_append_same simp flip: replicate_Suc)
  qed
qed

lemma warnings_determine_requires:
  "snd (determine_requires pid reqs (tbl, ws)) =
     ws @ map (\<lambda>req. DependencyProblem req pid) (filter (\<lambda>req. map_of tbl req = None) reqs)"
proof (induction reqs arbitrary: tbl ws)
  case Nil
  show ?case by simp
next
  case (Cons req reqs)
  have dom: "(map_of (modify req (push_requiredBy pid) tbl) r = None) = (map_of tbl r = None)" for r
    by (simp add: map_of_modify)
  show ?case
  proof (cases "map_of tbl req")
    case None
    then show ?thesis
      using Cons[of tbl "ws @ [DependencyProblem req pid]"] by simp
  next
    case (Some it3)
    then show ?thesis
      using Cons[of "modify req (push_requiredBy pid) tbl" ws] by (simp add: dom)
  qed
qed





lemma contribution_cong:
  assumes "\<And>k. map_of tbl1 k = map_option (\<lambda>p. p\<lparr>requiredBy := f k p\<rparr>) (map_of tbl k)"
  shows "contribution tbl1 q k = contribution tbl q k" and "problems tbl1 k = problems tbl k"
proof -
  have n: "(map_of tbl1 r = None) = (map_of tbl r = None)" for r
    unfolding assms[of r] by (cases "map_of tbl r") simp_all
  show "contribution tbl1 q k = contribution tbl q k"
    unfolding contribution_def assms[of k] by (cases "map_of tbl k") simp_all
  have "problems tbl1 k =
     (case map_of tbl1 k of
        None \<Rightarrow> []
      | Some pk \<Rightarrow> map (\<lambda>req. DependencyProblem req (id' pk))
                    (filter (\<lambda>req. map_of tbl req = None) (requiredPackages pk)))"
    unfolding problems_def n ..
  also have "\<dots> = problems tbl k"
    unfolding problems_def assms[of k] by (cases "map_of tbl k") simp_all
  finally show "problems tbl1 k = problems tbl k" .
qed

lemma determine_dependencies_result:
  "map_of (fst (determine_dependencies ks (tbl, ws))) q =
     map_option (\<lambda>p. p\<lparr>requiredBy := requiredBy p @ concat (map (contribution tbl q) ks)\<rparr>)
       (map_of tbl q)
   \<and> snd (determine_dependencies ks (tbl, ws)) = ws @ concat (map (problems tbl) ks)
   \<and> map fst (fst (determine_dependencies ks (tbl, ws))) = map fst tbl"
proof (induction ks arbitrary: tbl ws)
  case Nil
  show ?case by (cases "map_of tbl q") simp_all
next
  case (Cons k ks)
  show ?case
  proof (cases "map_of tbl k")
    case None
    then show ?thesis using Cons[of tbl ws] by (simp add: contribution_def problems_def)
  next
    case (Some pkg)
    obtain tbl1 ws1 where r: "determine_requires (id' pkg) (requiredPackages pkg) (tbl, ws) = (tbl1, ws1)"
      by (cases "determine_requires (id' pkg) (requiredPackages pkg) (tbl, ws)")
    have m1: "map_of tbl1 x =
       map_option (\<lambda>p. p\<lparr>requiredBy := requiredBy p @
          replicate (count_list (requiredPackages pkg) x) (id' pkg)\<rparr>) (map_of tbl x)" for x
      using map_of_determine_requires[of "id' pkg" "requiredPackages pkg" tbl ws x] r by simp
    have w1: "ws1 = ws @ problems tbl k"
      using warnings_determine_requires[of "id' pkg" "requiredPackages pkg" tbl ws] r Some
      by (simp add: problems_def)
    have k1: "map fst tbl1 = map fst tbl"
      using map_fst_determine_requires[of "id' pkg" "requiredPackages pkg" tbl ws] r by simp
    have c: "contribution tbl1 q' k' = contribution tbl q' k'" "problems tbl1 k' = problems tbl k'"
      for q' k'
      using contribution_cong[of tbl1 _ tbl, OF m1] by simp_all
    have c0: "contribution tbl q k = replicate (count_list (requiredPackages pkg) q) (id' pkg)"
      using Some by (simp add: contribution_def)
    have step: "determine_dependencies (k # ks) (tbl, ws) = determine_dependencies ks (tbl1, ws1)"
      using Some r by simp
    show ?thesis
      unfolding step
      using Cons[of tbl1 ws1] m1[of q] w1 k1
      by (cases "map_of tbl q") (simp_all add: c c0)
  qed
qed




lemma transpose_inv_attach:
  assumes "transpose_inv tbl" "map_of tbl k = Some pkg"
  shows "transpose_inv (attach k pkg umbrella tbl)"
proof (cases "map_of tbl umbrella")
  case None
  then show ?thesis using assms by (simp add: attach_def)
next
  case (Some u)
  have ids: "id' pkg = k" "id' u = umbrella"
    using assms Some by (auto simp: transpose_inv_def)
  let ?t = "modify umbrella (push_requiredPackages k) (modify k (push_requiredBy umbrella) tbl)"
  have m: "map_of ?t x =
      map_option (\<lambda>p. p\<lparr>requiredPackages := requiredPackages p @ (if x = umbrella then [k] else []),
                         requiredBy := requiredBy p @ (if x = k then [umbrella] else [])\<rparr>)
        (map_of tbl x)" for x
    by (cases "map_of tbl x")
       (auto simp: map_of_modify push_requiredPackages_def push_requiredBy_def)
  have "transpose_inv ?t"
    unfolding transpose_inv_def
  proof (intro conjI allI impI)
    fix x p assume "map_of ?t x = Some p"
    then show "id' p = x"
      using assms(1) unfolding m transpose_inv_def by (cases "map_of tbl x") auto
  next
    fix kp kq p q assume a: "map_of ?t kp = Some p \<and> map_of ?t kq = Some q"
    then obtain p0 q0 where p0: "map_of tbl kp = Some p0" and q0: "map_of tbl kq = Some q0"
      unfolding m by (cases "map_of tbl kp"; cases "map_of tbl kq") auto
    have old: "(kq \<in> set (requiredPackages p0)) = (kp \<in> set (requiredBy q0))"
      using assms(1) p0 q0 unfolding transpose_inv_def by blast
    have "requiredPackages p = requiredPackages p0 @ (if kp = umbrella then [k] else [])"
      and "requiredBy q = requiredBy q0 @ (if kq = k then [umbrella] else [])"
      using a p0 q0 unfolding m by auto
    then show "(kq \<in> set (requiredPackages p)) = (kp \<in> set (requiredBy q))"
      using old by auto
  qed
  then show ?thesis using Some ids by (simp add: attach_def)
qed

lemma transpose_inv_step:
  "transpose_inv tbl \<Longrightarrow> transpose_inv (categorize_step ipd latex outlineFonts k tbl)"
  by (cases "map_of tbl k") (simp_all add: categorize_step_def transpose_inv_attach)

lemma transpose_inv_categorize:
  "transpose_inv tbl \<Longrightarrow> transpose_inv (categorize ipd latex outlineFonts ks tbl)"
  by (induction ks arbitrary: tbl) (simp_all add: transpose_inv_step)

lemma map_fst_categorize_step:
  "map fst (categorize_step ipd latex outlineFonts k tbl) = map fst tbl"
  by (cases "map_of tbl k")
     (auto simp: categorize_step_def attach_def map_fst_modify split: option.splits)

lemma map_fst_categorize:
  "map fst (categorize ipd latex outlineFonts ks tbl) = map fst tbl"
  by (induction ks arbitrary: tbl) (simp_all add: map_fst_categorize_step)

lemma staged_map_of:
  assumes "staged tbl"
  shows "(map_of tbl k = Some p) = ((k, p) \<in> set tbl)"
    and "map_of tbl k = Some p \<Longrightarrow> id' p = k \<and> requiredBy p = []"
proof -
  have "distinct (map fst tbl)"
    using assms strict_sorted_iff unfolding staged_def by blast
  then show "(map_of tbl k = Some p) = ((k, p) \<in> set tbl)" by simp
  then show "map_of tbl k = Some p \<Longrightarrow> id' p = k \<and> requiredBy p = []"
    using assms by (auto simp: staged_def list_all_iff)
qed

lemma set_contributions:
  assumes "staged tbl"
  shows "set (concat (map (contribution tbl q) ks)) =
           {k \<in> set ks. \<exists>p. map_of tbl k = Some p \<and> q \<in> set (requiredPackages p)}"
proof (induction ks)
  case Nil
  show ?case by simp
next
  case (Cons k ks)
  have "set (contribution tbl q k) =
          (if \<exists>p. map_of tbl k = Some p \<and> q \<in> set (requiredPackages p) then {k} else {})"
    using staged_map_of(2)[OF assms, of k]
    by (cases "map_of tbl k") (auto simp: contribution_def count_list_0_iff)
  then show ?case using Cons by auto
qed

lemma transpose_inv_dependencies:
  assumes "staged tbl"
  shows "transpose_inv (fst (determine_dependencies (map fst tbl) (tbl, [])))"
proof -
  let ?t = "fst (determine_dependencies (map fst tbl) (tbl, []))"
  have m: "map_of ?t x =
     map_option (\<lambda>p. p\<lparr>requiredBy := requiredBy p @ concat (map (contribution tbl x) (map fst tbl))\<rparr>)
       (map_of tbl x)" for x
    using determine_dependencies_result[of "map fst tbl" tbl "[]" x] by simp
  have keys: "k \<in> set (map fst tbl)" if "map_of tbl k = Some p" for k p
    using that by (metis map_of_eq_None_iff option.distinct(1) set_map)
  show ?thesis
    unfolding transpose_inv_def
  proof (intro conjI allI impI)
    fix x p assume a: "map_of ?t x = Some p"
    then obtain p0 where p0: "map_of tbl x = Some p0"
      unfolding m by (cases "map_of tbl x") auto
    then have "id' p = id' p0" using a unfolding m by auto
    then show "id' p = x"
      using staged_map_of(2)[OF assms p0] by simp
  next
    fix kp kq p q assume a: "map_of ?t kp = Some p \<and> map_of ?t kq = Some q"
    then obtain p0 q0 where p0: "map_of tbl kp = Some p0" and q0: "map_of tbl kq = Some q0"
      unfolding m by (cases "map_of tbl kp"; cases "map_of tbl kq") auto
    have rp: "requiredPackages p = requiredPackages p0"
      using a p0 unfolding m by auto
    have "requiredBy q = requiredBy q0 @ concat (map (contribution tbl kq) (map fst tbl))"
      using a q0 unfolding m by auto
    moreover have "requiredBy q0 = []"
      using staged_map_of(2)[OF assms q0] by simp
    ultimately have "set (requiredBy q) =
        {k \<in> set (map fst tbl). \<exists>p. map_of tbl k = Some p \<and> kq \<in> set (requiredPackages p)}"
      using set_contributions[OF assms, of kq "map fst tbl"] by simp
    then have "(kp \<in> set (requiredBy q)) = (kq \<in> set (requiredPackages p0))"
      using p0 keys[OF p0] by simp
    then show "(kq \<in> set (requiredPackages p)) = (kp \<in> set (requiredBy q))"
      using rp by simp
  qed
qed

text \<open>
  Claim C4. Take a package table as \<^verbatim>\<open>CollectPackages\<close> leaves it (\<open>staged\<close>) and run the
  categorizer pass on it, the dependency loop followed by the umbrella attachment.
  The pass returns: there is no error. The table has the keys it had. For all
  packages \<open>p\<close> and \<open>q\<close> of the table, the id of \<open>q\<close> is in the required packages of \<open>p\<close>
  exactly when the id of \<open>p\<close> is in the \<^verbatim>\<open>requiredBy\<close> list of \<open>q\<close>. The warnings are one
  \<open>DependencyProblem\<close> for each required id of each package that names no package of
  the table, in the order of the table, and nothing else.
\<close>

theorem categorizer_transposes:
  assumes "staged packageTable"
    and "autoCategorize IsParentDirectoryOf packageTable = (tbl, ws)"
  shows "map fst tbl = map fst packageTable \<and>
         (\<forall>kp p kq q. (kp, p) \<in> set tbl \<and> (kq, q) \<in> set tbl \<longrightarrow>
            (id' q \<in> set (requiredPackages p)) = (id' p \<in> set (requiredBy q))) \<and>
         ws = concat (map (\<lambda>(k, p). map (\<lambda>req. DependencyProblem req (id' p))
                 (filter (\<lambda>req. map_of packageTable req = None) (requiredPackages p)))
                packageTable)"
proof -
  obtain t1 w1 where d: "determine_dependencies (map fst packageTable) (packageTable, []) = (t1, w1)"
    by (cases "determine_dependencies (map fst packageTable) (packageTable, [])")
  let ?latex = "find_key t1 ''_miktex-latex-packages''"
  let ?fonts = "find_key t1 ''_miktex-fonts-type1''"
  have tbl: "tbl = categorize IsParentDirectoryOf ?latex ?fonts (map fst t1) t1" and ws: "ws = w1"
    using assms(2) d by (simp_all add: autoCategorize_def)
  have k1: "map fst t1 = map fst packageTable"
    using determine_dependencies_result[of "map fst packageTable" packageTable "[]"] d by simp
  have keys: "map fst tbl = map fst packageTable"
    unfolding tbl by (simp add: map_fst_categorize k1)
  have "transpose_inv t1"
    using transpose_inv_dependencies[OF assms(1)] d by simp
  then have inv: "transpose_inv tbl"
    unfolding tbl by (rule transpose_inv_categorize)
  have dist: "distinct (map fst tbl)"
    using assms(1) keys strict_sorted_iff unfolding staged_def by metis
  have tr: "(id' q \<in> set (requiredPackages p)) = (id' p \<in> set (requiredBy q))"
    if "(kp, p) \<in> set tbl \<and> (kq, q) \<in> set tbl" for kp p kq q
  proof -
    have "map_of tbl kp = Some p" "map_of tbl kq = Some q"
      using that dist by simp_all
    then show ?thesis
      using inv unfolding transpose_inv_def by metis
  qed
  have "problems packageTable k = map (\<lambda>req. DependencyProblem req (id' p))
          (filter (\<lambda>req. map_of packageTable req = None) (requiredPackages p))"
    if "(k, p) \<in> set packageTable" for k p
    using that staged_map_of(1)[OF assms(1), of k p] by (simp add: problems_def)
  then have mid: "map (problems packageTable) (map fst packageTable) =
     map (\<lambda>(k, p). map (\<lambda>req. DependencyProblem req (id' p))
                 (filter (\<lambda>req. map_of packageTable req = None) (requiredPackages p)))
       packageTable"
    by auto
  have "w1 = concat (map (problems packageTable) (map fst packageTable))"
    using determine_dependencies_result[of "map fst packageTable" packageTable "[]"] d
    by simp
  then have "ws = concat (map (\<lambda>(k, p). map (\<lambda>req. DependencyProblem req (id' p))
                 (filter (\<lambda>req. map_of packageTable req = None) (requiredPackages p)))
                packageTable)"
    unfolding ws mid .
  then show ?thesis using keys tr by blast
qed

lemma example_table_staged: "staged example_table"
  by (simp add: staged_def example_table_def example_pkg_def MpcPackageInfo_default_def)

lemma example_table_result:
  "map (\<lambda>(k, p). (k, requiredPackages p, requiredBy p))
     (fst (autoCategorize (\<lambda>a b. False) example_table)) =
   [(''_miktex-latex-packages'', [''c''], []),
    (''a'', [''b'', ''zzz''], []),
    (''b'', [], [''a'']),
    (''c'', [], [''_miktex-latex-packages''])]"
  by (simp add: autoCategorize_def example_table_def example_pkg_def MpcPackageInfo_default_def
      find_key_def categorize_step_def attach_def push_requiredBy_def push_requiredPackages_def
      StartsWith_def)

theorem categorizer_transposes_witness:
  "staged example_table \<and>
   map fst (fst (autoCategorize (\<lambda>a b. False) example_table)) =
     [''_miktex-latex-packages'', ''a'', ''b'', ''c''] \<and>
   snd (autoCategorize (\<lambda>a b. False) example_table) = [DependencyProblem ''zzz'' ''a''] \<and>
   map (\<lambda>(k, p). (k, requiredPackages p, requiredBy p))
     (fst (autoCategorize (\<lambda>a b. False) example_table)) =
   [(''_miktex-latex-packages'', [''c''], []),
    (''a'', [''b'', ''zzz''], []),
    (''b'', [], [''a'']),
    (''c'', [], [''_miktex-latex-packages''])]"
proof -
  have "autoCategorize (\<lambda>a b. False) example_table =
          (fst (autoCategorize (\<lambda>a b. False) example_table),
           snd (autoCategorize (\<lambda>a b. False) example_table))"
    by simp
  from categorizer_transposes[OF example_table_staged this]
  have "map fst (fst (autoCategorize (\<lambda>a b. False) example_table)) = map fst example_table"
    and "snd (autoCategorize (\<lambda>a b. False) example_table) =
      concat (map (\<lambda>(k, p). map (\<lambda>req. DependencyProblem req (id' p))
                 (filter (\<lambda>req. map_of example_table req = None) (requiredPackages p)))
                example_table)"
    by blast+
  then show ?thesis
    using example_table_staged example_table_result
    by (simp add: example_table_def example_pkg_def MpcPackageInfo_default_def)
qed

subsection \<open>Classification of the collected files\<close>

text \<open>
  Every regular file below \<^verbatim>\<open>Files\<close> is appended to one of the three lists, in the order
  of the walk: to the doc files when \<^verbatim>\<open>IsInTeXMFDirectory\<close> holds for \<^verbatim>\<open>doc\<close>, else to the
  source files when it holds for \<^verbatim>\<open>source\<close>, else to the run files.
\<close>

lemma CollectFiles_lists:
  "docFiles (CollectFiles pre sub es p) =
     docFiles p @ filter (\<lambda>q. IsInTeXMFDirectory pre q ''doc'') (file_paths sub es) \<and>
   sourceFiles (CollectFiles pre sub es p) =
     sourceFiles p @ filter (\<lambda>q. \<not> IsInTeXMFDirectory pre q ''doc'' \<and>
                                 IsInTeXMFDirectory pre q ''source'') (file_paths sub es) \<and>
   runFiles (CollectFiles pre sub es p) =
     runFiles p @ filter (\<lambda>q. \<not> IsInTeXMFDirectory pre q ''doc'' \<and>
                              \<not> IsInTeXMFDirectory pre q ''source'') (file_paths sub es)"
  "docFiles (CollectFiles_entry pre sub e p) =
     docFiles p @ filter (\<lambda>q. IsInTeXMFDirectory pre q ''doc'') (file_paths_entry sub e) \<and>
   sourceFiles (CollectFiles_entry pre sub e p) =
     sourceFiles p @ filter (\<lambda>q. \<not> IsInTeXMFDirectory pre q ''doc'' \<and>
                                 IsInTeXMFDirectory pre q ''source'') (file_paths_entry sub e) \<and>
   runFiles (CollectFiles_entry pre sub e p) =
     runFiles p @ filter (\<lambda>q. \<not> IsInTeXMFDirectory pre q ''doc'' \<and>
                              \<not> IsInTeXMFDirectory pre q ''source'') (file_paths_entry sub e)"
  by (induction pre sub es p and pre sub e p rule: CollectFiles_CollectFiles_entry.induct)
     (simp_all add: Let_def)

text \<open>
  Claim C3. The claim's rule puts a file into the doc files when its relative path
  starts with \<^verbatim>\<open>texmf/doc/\<close>. \<^verbatim>\<open>IsInTeXMFDirectory\<close> compares with \<^verbatim>\<open>texmf/doc\<close>, the prefix
  without the delimiter: the file \<^verbatim>\<open>texmf/docs/x.txt\<close>, which does not start with
  \<^verbatim>\<open>texmf/doc/\<close>, is collected into the doc files and not into the run files.
\<close>

theorem CollectFiles_doc_prefix:
  "docFiles (CollectPackage ''texmf''
      \<lparr> package_ini = None, Description = None,
        Files = Some [SubDirectory ''texmf'' [SubDirectory ''docs'' [RegularFile ''x.txt'' 7]]] \<rparr>
      (MpcPackageInfo_default (- 1))) = [''texmf/docs/x.txt''] \<and>
   runFiles (CollectPackage ''texmf''
      \<lparr> package_ini = None, Description = None,
        Files = Some [SubDirectory ''texmf'' [SubDirectory ''docs'' [RegularFile ''x.txt'' 7]]] \<rparr>
      (MpcPackageInfo_default (- 1))) = [] \<and>
   \<not> StartsWith ''texmf/docs/x.txt'' ''texmf/doc/''"
  by (simp add: CollectPackage_def MpcPackageInfo_default_def AppendComponent_def
      IsInTeXMFDirectory_def ComparePrefixes_def StartsWith_def)

subsection \<open>Clean-up of superseded archives\<close>

text \<open>
  Claim C7. In a repository that holds \<^verbatim>\<open>foo.cab\<close>, \<^verbatim>\<open>foo.tar.bz2\<close> and \<^verbatim>\<open>foo.tar.lzma\<close>,
  \<^verbatim>\<open>CleanUp\<close> schedules nothing for deletion and leaves the three files: the paths it
  looks for are \<^verbatim>\<open>foo.cab.tar.bz2\<close>, \<^verbatim>\<open>foo.cab.tar.lzma\<close> and \<^verbatim>\<open>foo.tar.bz2.lzma\<close>.
\<close>

theorem CleanUp_keeps_superseded_archives:
  "CleanUp_scan ''/repo'' [''foo.cab'', ''foo.tar.bz2'', ''foo.tar.lzma'']
     [''foo.cab'', ''foo.tar.bz2'', ''foo.tar.lzma''] [] = [] \<and>
   CleanUp ''/repo'' [''foo.cab'', ''foo.tar.bz2'', ''foo.tar.lzma''] =
     Inr [''/repo/foo.cab'', ''/repo/foo.tar.bz2'', ''/repo/foo.tar.lzma''] \<and>
   AppendExtension ''/repo/foo.cab'' ''.tar.bz2'' = ''/repo/foo.cab.tar.bz2'' \<and>
   AppendExtension ''/repo/foo.cab'' ''.tar.lzma'' = ''/repo/foo.cab.tar.lzma'' \<and>
   AppendExtension ''/repo/foo.tar.bz2'' ''.lzma'' = ''/repo/foo.tar.bz2.lzma''"
  by (simp add: CleanUp_def CleanUp_entry_def AppendComponent_def AppendExtension_def
      HasExtension_def GetExtension_def GetFileName_def)

subsection \<open>The TDS digest\<close>

lemma GetTdsDigest_loop_foldl:
  "GetTdsDigest_loop md5 conv t h =
     foldl (Update md5) h (concat (map (\<lambda>(p, d). [conv p, d]) t))"
  by (induction t arbitrary: h) auto

lemma less_icase_dos_total: "\<not> less_icase_dos a b \<Longrightarrow> \<not> less_icase_dos b a \<Longrightarrow> dos_normalize a = dos_normalize b"
  by (simp add: less_icase_dos_def)

lemma keys_FileDigestTable_assign:
  "dos_normalize ` set (map fst (FileDigestTable_assign k v m)) =
     insert (dos_normalize k) (dos_normalize ` set (map fst m))"
proof (induction m)
  case Nil
  then show ?case by (simp add: FileDigestTable_assign_def)
next
  case (Cons a m)
  obtain k' v' where a: "a = (k', v')" by (cases a)
  show ?case
    using Cons a less_icase_dos_total[of k k']
    by (auto simp: FileDigestTable_assign_def simp del: set_map)
qed

lemma FileDigestTable_ok_assign:
  "FileDigestTable_ok m \<Longrightarrow> FileDigestTable_ok (FileDigestTable_assign k v m)"
proof (induction m)
  case Nil
  then show ?case by (simp add: FileDigestTable_ok_def FileDigestTable_assign_def)
next
  case (Cons a m)
  obtain k' v' where a: "a = (k', v')" by (cases a)
  have ok: "FileDigestTable_ok m" and lt: "\<forall>x\<in>set (map fst m). less_icase_dos k' x"
    using Cons.prems a by (simp_all add: FileDigestTable_ok_def)
  have "\<forall>x\<in>set (map fst (FileDigestTable_assign k v m)). less_icase_dos k' x"
    if "less_icase_dos k' k"
  proof
    fix x assume "x \<in> set (map fst (FileDigestTable_assign k v m))"
    then have "dos_normalize x \<in> insert (dos_normalize k) (dos_normalize ` set (map fst m))"
      using keys_FileDigestTable_assign[of k v m] by blast
    then show "less_icase_dos k' x"
      using that lt by (auto simp: less_icase_dos_def)
  qed
  moreover have "less_icase_dos k x" if "less_icase_dos k k'" "x \<in> set (map fst m)" for x
    using that lt by (auto simp: less_icase_dos_def)
  ultimately show ?case
    using Cons.IH[OF ok] Cons.prems a
    by (auto simp: FileDigestTable_ok_def FileDigestTable_assign_def simp del: set_map)
qed

lemma FileDigestTable_ok_fill:
  "FileDigestTable_ok m \<Longrightarrow> FileDigestTable_ok (FileDigestTable_fill es m)"
  by (induction es m rule: FileDigestTable_fill.induct) (simp_all add: FileDigestTable_ok_assign)

lemma FileDigestTable_ok_of: "FileDigestTable_ok (FileDigestTable_of es)"
  unfolding FileDigestTable_of_def
  by (rule FileDigestTable_ok_fill) (simp add: FileDigestTable_ok_def)

lemma FileDigestTable_ok_unique:
  assumes "FileDigestTable_ok a" "FileDigestTable_ok b" "set a = set b"
  shows "a = b"
proof -
  let ?k = "\<lambda>e. dos_normalize (fst e)"
  have sa: "sorted_wrt (<) (map ?k a)" and sb: "sorted_wrt (<) (map ?k b)"
    using assms(1,2)
    by (simp_all add: FileDigestTable_ok_def less_icase_dos_def sorted_wrt_map)
  have "set (map ?k a) = set (map ?k b)" using assms(3) by simp
  then have eq: "map ?k a = map ?k b"
    using sa sb strict_sorted_equal by blast
  have "distinct (map ?k a)" using sa strict_sorted_iff by blast
  then have "inj_on ?k (set a)" by (simp add: distinct_map)
  then have "inj_on ?k (set a \<union> set b)" using assms(3) by simp
  then show ?thesis using eq inj_on_map_eq_map by blast
qed

lemma set_FileDigestTable_assign_new:
  "dos_normalize k \<notin> dos_normalize ` set (map fst m) \<Longrightarrow>
   set (FileDigestTable_assign k v m) = insert (k, v) (set m)"
proof (induction m)
  case Nil
  then show ?case by (simp add: FileDigestTable_assign_def)
next
  case (Cons a m)
  obtain k' v' where a: "a = (k', v')" by (cases a)
  have "dos_normalize k \<noteq> dos_normalize k'" using Cons.prems a by simp
  then have "less_icase_dos k k' \<or> less_icase_dos k' k"
    by (auto simp: less_icase_dos_def)
  then show ?case
    using Cons a by (auto simp: FileDigestTable_assign_def simp del: set_map)
qed

lemma set_FileDigestTable_fill:
  "distinct (map (\<lambda>e. dos_normalize (fst e)) es) \<Longrightarrow>
   (\<lambda>e. dos_normalize (fst e)) ` set es \<inter> (\<lambda>e. dos_normalize (fst e)) ` set m = {} \<Longrightarrow>
   set (FileDigestTable_fill es m) = set es \<union> set m"
proof (induction es m rule: FileDigestTable_fill.induct)
  case (1 m)
  then show ?case by simp
next
  case (2 k v es m)
  have new: "dos_normalize k \<notin> dos_normalize ` set (map fst m)"
    using "2.prems"(2) by (auto simp: image_iff)
  have s: "set (FileDigestTable_assign k v m) = insert (k, v) (set m)"
    using set_FileDigestTable_assign_new[OF new] .
  have d: "distinct (map (\<lambda>e. dos_normalize (fst e)) es)"
    and n: "dos_normalize k \<notin> (\<lambda>e. dos_normalize (fst e)) ` set es"
    using "2.prems"(1) by (auto simp: image_iff)
  have "(\<lambda>e. dos_normalize (fst e)) ` set es \<inter>
        (\<lambda>e. dos_normalize (fst e)) ` set (FileDigestTable_assign k v m) = {}"
    unfolding s using "2.prems"(2) n by auto
  from "2.IH"[OF d this] show ?case using s by auto
qed

lemma FileDigestTable_of_entries:
  assumes "FileDigestTable_ok t" "mset es = mset t"
  shows "FileDigestTable_of es = t"
proof -
  let ?k = "\<lambda>e. dos_normalize (fst e)"
  have "sorted_wrt (<) (map ?k t)"
    using assms(1) by (simp add: FileDigestTable_ok_def less_icase_dos_def sorted_wrt_map)
  then have "distinct (map ?k t)" using strict_sorted_iff by blast
  moreover have "mset (map ?k es) = mset (map ?k t)" using assms(2) by simp
  ultimately have "distinct (map ?k es)"
    using mset_eq_imp_distinct_iff by blast
  then have "set (FileDigestTable_of es) = set es"
    using set_FileDigestTable_fill[of es "[]"] by (simp add: FileDigestTable_of_def)
  also have "\<dots> = set t" using assms(2) by (rule mset_eq_setD)
  finally show ?thesis
    using FileDigestTable_ok_unique[OF FileDigestTable_ok_of assms(1)] by simp
qed

lemma example_entries_table:
  "FileDigestTable_of example_entries = rev example_entries"
  "FileDigestTable_ok (rev example_entries)"
  by (simp_all add: FileDigestTable_of_def example_entries_def FileDigestTable_assign_def
      FileDigestTable_ok_def less_icase_dos_def dos_normalize_def dos_char_def)

text \<open>
  Claim C1. \<^verbatim>\<open>GetTdsDigest\<close> of a file digest table is the final value of the hash
  builder after it is fed, for each entry in the order of the table, the path as
  \<^verbatim>\<open>ConvertToDos\<close> gives it and then the digest of the entry. The order of the table is
  the case-insensitive DOS order of the keys, whatever the order in which the entries
  were assigned. Two tables with the same set of entries have the same digest, and
  assigning the entries of a table in any order to the empty table gives that table
  and so the same digest.
\<close>

theorem GetTdsDigest_entry_order:
  "GetTdsDigest md5 ConvertToDos t =
     Final md5 (foldl (Update md5) (Init md5) (concat (map (\<lambda>(p, d). [ConvertToDos p, d]) t)))
   \<and> FileDigestTable_ok (FileDigestTable_of es)
   \<and> (FileDigestTable_ok t \<and> FileDigestTable_ok t' \<and> set t = set t' \<longrightarrow>
        GetTdsDigest md5 ConvertToDos t = GetTdsDigest md5 ConvertToDos t')
   \<and> (FileDigestTable_ok t \<and> mset es' = mset t \<longrightarrow>
        FileDigestTable_of es' = t \<and>
        GetTdsDigest md5 ConvertToDos (FileDigestTable_of es') = GetTdsDigest md5 ConvertToDos t)"
  using FileDigestTable_ok_unique[of t t'] FileDigestTable_of_entries[of t es']
  by (auto simp: GetTdsDigest_def GetTdsDigest_loop_foldl FileDigestTable_ok_of)

theorem GetTdsDigest_entry_order_witness:
  "FileDigestTable_ok (rev example_entries) \<and>
   mset example_entries = mset (rev example_entries) \<and>
   set (rev example_entries) = set (FileDigestTable_of example_entries) \<and>
   FileDigestTable_of example_entries = rev example_entries \<and>
   GetTdsDigest transcript (\<lambda>p. p) (FileDigestTable_of example_entries) =
     GetTdsDigest transcript (\<lambda>p. p) (rev example_entries) \<and>
   GetTdsDigest transcript (\<lambda>p. p) (rev example_entries) =
     ''texmf/Doc/b.pdffedcba9876543210texmf/tex/x.sty0123456789abcdef''"
proof -
  have m: "mset example_entries = mset (rev example_entries)" by simp
  note th = GetTdsDigest_entry_order
    [where t = "rev example_entries" and t' = "FileDigestTable_of example_entries"
       and es' = example_entries and es = example_entries
       and ?md5.0 = transcript and ConvertToDos = "\<lambda>p. p"]
  have "FileDigestTable_of example_entries = rev example_entries \<and>
        GetTdsDigest transcript (\<lambda>p. p) (FileDigestTable_of example_entries) =
          GetTdsDigest transcript (\<lambda>p. p) (rev example_entries)"
    using th m example_entries_table(2) by blast
  moreover have "GetTdsDigest transcript (\<lambda>p. p) (rev example_entries) =
     ''texmf/Doc/b.pdffedcba9876543210texmf/tex/x.sty0123456789abcdef''"
    by (simp add: GetTdsDigest_def transcript_def example_entries_def)
  ultimately show ?thesis
    using m example_entries_table by simp
qed

text \<open>
  Keys that differ only in case are one key of the table: the entry keeps the key that
  came first and takes the digest that came last.
\<close>

lemma FileDigestTable_case_collision:
  "FileDigestTable_of [(''a'', d1), (''A'', d2)] = [(''a'', d2)]"
  "FileDigestTable_of [(''A'', d2), (''a'', d1)] = [(''A'', d1)]"
  by (simp_all add: FileDigestTable_of_def FileDigestTable_assign_def
      less_icase_dos_def dos_normalize_def dos_char_def)

subsection \<open>The repository information file\<close>

lemma set_std_set_insert: "set (std_set_insert cmp x xs) \<subseteq> insert x (set xs)"
  by (induction xs) auto

lemma sorted_std_set_insert:
  "sorted_wrt PackagedOnReversed xs \<Longrightarrow>
   sorted_wrt PackagedOnReversed (std_set_insert PackagedOnReversed x xs)"
proof (induction xs)
  case Nil
  then show ?case by simp
next
  case (Cons y ys)
  have "PackagedOnReversed y z" if "z \<in> set (std_set_insert PackagedOnReversed x ys)"
    "\<not> PackagedOnReversed x y" for z
    using that Cons.prems set_std_set_insert[of PackagedOnReversed x ys]
    by (auto simp: PackagedOnReversed_def)
  moreover have "PackagedOnReversed x z" if "z \<in> set ys" "PackagedOnReversed x y" for z
    using that Cons.prems by (auto simp: PackagedOnReversed_def)
  ultimately show ?case using Cons by auto
qed

lemma mset_std_set_insert_PackagedOnReversed:
  "mset (std_set_insert PackagedOnReversed x xs) = add_mset x (mset xs)"
  by (induction xs) (auto simp: PackagedOnReversed_def)

lemma packagedOnReversed_fill_sorted:
  "packagedOnReversed_fill ToTimeT invT m tbl acc = Inr ps \<Longrightarrow>
   sorted_wrt PackagedOnReversed acc \<Longrightarrow> sorted_wrt PackagedOnReversed ps"
proof (induction tbl arbitrary: acc)
  case Nil
  then show ?case by simp
next
  case (Cons a tbl)
  obtain k p where a: "a = (k, p)" by (cases a)
  show ?case
    using Cons.prems Cons.IH a
    by (auto simp: sorted_std_set_insert split: sum.splits)
qed

lemma packagedOnReversed_fill_times:
  "packagedOnReversed_fill ToTimeT invT m tbl acc = Inr ps \<Longrightarrow>
   list_all (\<lambda>p. manifest_TimePackaged ToTimeT invT m p = Inr (timePackaged p)) acc \<Longrightarrow>
   list_all (\<lambda>p. manifest_TimePackaged ToTimeT invT m p = Inr (timePackaged p)) ps"
proof (induction tbl arbitrary: acc)
  case Nil
  then show ?case by simp
next
  case (Cons a tbl)
  obtain k p where a: "a = (k, p)" by (cases a)
  show ?case
  proof (cases "manifest_TimePackaged ToTimeT invT m p")
    case (Inl e)
    then show ?thesis using Cons.prems a by simp
  next
    case (Inr t)
    have "manifest_TimePackaged ToTimeT invT m (p\<lparr>timePackaged := t\<rparr>) = Inr t"
      using Inr by (simp add: manifest_TimePackaged_def)
    then have "list_all (\<lambda>p. manifest_TimePackaged ToTimeT invT m p = Inr (timePackaged p))
        (std_set_insert PackagedOnReversed (p\<lparr>timePackaged := t\<rparr>) acc)"
      using Cons.prems(2) set_std_set_insert[of PackagedOnReversed "p\<lparr>timePackaged := t\<rparr>" acc]
      by (auto simp: list_all_iff)
    then show ?thesis using Cons.prems(1) Cons.IH a Inr by simp
  qed
qed

lemma packagedOnReversed_fill_ids:
  "packagedOnReversed_fill ToTimeT invT m tbl acc = Inr ps \<Longrightarrow>
   mset (map id' ps) = mset (map (\<lambda>e. id' (snd e)) tbl) + mset (map id' acc)"
proof (induction tbl arbitrary: acc)
  case Nil
  then show ?case by simp
next
  case (Cons a tbl)
  obtain k p where a: "a = (k, p)" by (cases a)
  show ?case
  proof (cases "manifest_TimePackaged ToTimeT invT m p")
    case (Inl e)
    then show ?thesis using Cons.prems a by simp
  next
    case (Inr t)
    have "mset (map id' (std_set_insert PackagedOnReversed (p\<lparr>timePackaged := t\<rparr>) acc)) =
            add_mset (id' p) (mset (map id' acc))"
      using mset_std_set_insert_PackagedOnReversed[of "p\<lparr>timePackaged := t\<rparr>" acc]
      by simp
    then show ?thesis using Cons.prems Cons.IH a Inr by simp
  qed
qed

lemma packagedOnReversed_fill_total:
  "list_all (\<lambda>e. manifest_TimePackaged ToTimeT invT m (snd e) \<noteq> Inl (MiKTeXException ''Utils::ToTimeT'')) tbl \<Longrightarrow>
   \<exists>ps. packagedOnReversed_fill ToTimeT invT m tbl acc = Inr ps"
proof (induction tbl arbitrary: acc)
  case Nil
  then show ?case by simp
next
  case (Cons a tbl)
  obtain k p where a: "a = (k, p)" by (cases a)
  have "\<exists>t. manifest_TimePackaged ToTimeT invT m p = Inr t"
    using Cons.prems a
    by (auto simp: manifest_TimePackaged_def split: option.splits)
  then show ?case using Cons a by auto
qed

lemma lastupd_loop_join:
  "c < 20 \<Longrightarrow>
   lastupd_loop ps c acc =
     (if ps = [] then acc
      else (if c > 0 then acc @ '' '' else acc) @ join_spaces (map id' (take (20 - c) ps)))"
proof (induction ps arbitrary: c acc)
  case Nil
  then show ?case by simp
next
  case (Cons p ps)
  show ?case
  proof (cases "c + 1 = 20")
    case True
    then show ?thesis by simp
  next
    case False
    then have c: "c + 1 < 20" using Cons.prems by simp
    obtain n where n1: "20 - (c + 1) = Suc n"
      using c by (cases "20 - (c + 1)") auto
    then have n2: "20 - c = Suc (Suc n)" by arith
    have step: "lastupd_loop (p # ps) c acc =
        lastupd_loop ps (c + 1) ((if c > 0 then acc @ '' '' else acc) @ id' p)"
      using False by (simp add: Let_def)
    show ?thesis
    proof (cases ps)
      case Nil
      then show ?thesis unfolding step n2 by simp
    next
      case (Cons q qs)
      then show ?thesis
        unfolding step Cons.IH[OF c] n1 n2 by simp
    qed
  qed
qed

lemma TryGet_PutValue:
  "TryGetValueAsString (PutValue cfg sec name v) sec' name' =
     (if sec' = sec \<and> name' = name then Some v else TryGetValueAsString cfg sec' name')"
  by (auto simp: TryGetValueAsString_def PutValue_def update_conv' split: option.splits)

lemma static_cast_int_small: "uint w < 2 ^ 31 \<Longrightarrow> static_cast_int w = uint w"
  by (simp add: static_cast_int_def to_int_def Let_def)

lemma to_string_wrapped: "to_string (static_cast_int 2147483648) = ''-2147483648''"
  by (simp add: to_string_def static_cast_int_def to_int_def digits.simps)

lemma to_string_size: "to_string (uint (2147483648 :: 64 word)) = ''2147483648''"
  by (simp add: to_string_def digits.simps)

lemma example_fill:
  "packagedOnReversed_fill example_ToTimeT (- 1) example_manifest example_table [] =
     Inr [(example_pkg ''b'' [] ''/macros/latex/contrib/b'')\<lparr>timePackaged := 200\<rparr>,
          (example_pkg ''c'' [] ''/macros/latex/contrib/c'')\<lparr>timePackaged := 100\<rparr>,
          (example_pkg ''a'' [''b'', ''zzz''] [])\<lparr>timePackaged := 100\<rparr>,
          (example_pkg ''_miktex-latex-packages'' [] [])\<lparr>timePackaged := - 1\<rparr>]"
  by (simp add: example_table_def example_manifest_def example_ToTimeT_def
      manifest_TimePackaged_def TryGetValueAsString_def PackagedOnReversed_def example_pkg_def
      MpcPackageInfo_default_def)

text \<open>
  Claim C6. When \<^verbatim>\<open>CreateRepositoryInformationFile\<close> returns, the \<^verbatim>\<open>lastupd\<close> value of
  every document it wrote to \<^verbatim>\<open>pr.ini\<close> is the ids, separated by spaces, of the first
  20 packages of the set \<^verbatim>\<open>packagedOnReversed\<close> (of all when there are fewer): at most
  20 ids. Their times are non-increasing from first to last, the time of a package
  being what the repository manifest gives for \<^verbatim>\<open>TimePackaged\<close> (\<^verbatim>\<open>InvalidTimeT\<close> when it
  gives nothing), and the set holds the packages of the table. The function returns
  whenever no \<^verbatim>\<open>TimePackaged\<close> value of a package of the table makes \<^verbatim>\<open>ToTimeT\<close> throw.
\<close>

theorem lastupd_non_increasing:
  "(CreateRepositoryInformationFile this md5 ToString ToTimeT InvalidTimeT Cfg_Write
      dir repositoryManifest packageTable = Inr (dir', writes) \<longrightarrow>
     (\<exists>ps. packagedOnReversed_fill ToTimeT InvalidTimeT repositoryManifest packageTable [] = Inr ps \<and>
        list_all (\<lambda>cfg. TryGetValueAsString cfg ''repository'' ''lastupd'' =
                          Some (join_spaces (map id' (take 20 ps)))) writes \<and>
        length (take 20 ps) \<le> 20 \<and>
        sorted_wrt (\<ge>) (map timePackaged (take 20 ps)) \<and>
        list_all (\<lambda>p. manifest_TimePackaged ToTimeT InvalidTimeT repositoryManifest p =
                        Inr (timePackaged p)) ps \<and>
        mset (map id' ps) = mset (map (\<lambda>e. id' (snd e)) packageTable)))
   \<and> (list_all (\<lambda>e. manifest_TimePackaged ToTimeT InvalidTimeT repositoryManifest (snd e)
                      \<noteq> Inl (MiKTeXException ''Utils::ToTimeT'')) packageTable \<longrightarrow>
        (\<exists>dir' writes. CreateRepositoryInformationFile this md5 ToString ToTimeT InvalidTimeT
            Cfg_Write dir repositoryManifest packageTable = Inr (dir', writes)))"
proof (intro conjI impI)
  assume a: "CreateRepositoryInformationFile this md5 ToString ToTimeT InvalidTimeT Cfg_Write
      dir repositoryManifest packageTable = Inr (dir', writes)"
  then obtain ps where
    ps: "packagedOnReversed_fill ToTimeT InvalidTimeT repositoryManifest packageTable [] = Inr ps"
    by (auto simp: CreateRepositoryInformationFile_def Let_def split: sum.splits)
  have l: "lastupd_loop ps 0 [] = join_spaces (map id' (take 20 ps))"
    using lastupd_loop_join[of 0 ps "[]"] by (cases ps) simp_all
  have w: "list_all (\<lambda>cfg. TryGetValueAsString cfg ''repository'' ''lastupd'' =
                          Some (join_spaces (map id' (take 20 ps)))) writes"
    using a ps l
    by (auto simp: CreateRepositoryInformationFile_def Let_def TryGet_PutValue)
  have s: "sorted_wrt PackagedOnReversed ps"
    using packagedOnReversed_fill_sorted[OF ps] by simp
  then have "sorted_wrt PackagedOnReversed (take 20 ps)"
    by (rule sorted_wrt_take)
  moreover have "PackagedOnReversed = (\<lambda>x y. timePackaged y \<le> timePackaged x)"
    by (intro ext) (simp add: PackagedOnReversed_def)
  ultimately have s': "sorted_wrt (\<ge>) (map timePackaged (take 20 ps))"
    by (simp add: sorted_wrt_map)
  have t: "list_all (\<lambda>p. manifest_TimePackaged ToTimeT InvalidTimeT repositoryManifest p =
                        Inr (timePackaged p)) ps"
    using packagedOnReversed_fill_times[OF ps] by simp
  have i: "mset (map id' ps) = mset (map (\<lambda>e. id' (snd e)) packageTable)"
    using packagedOnReversed_fill_ids[OF ps] by simp
  show "\<exists>ps. packagedOnReversed_fill ToTimeT InvalidTimeT repositoryManifest packageTable [] = Inr ps \<and>
        list_all (\<lambda>cfg. TryGetValueAsString cfg ''repository'' ''lastupd'' =
                          Some (join_spaces (map id' (take 20 ps)))) writes \<and>
        length (take 20 ps) \<le> 20 \<and>
        sorted_wrt (\<ge>) (map timePackaged (take 20 ps)) \<and>
        list_all (\<lambda>p. manifest_TimePackaged ToTimeT InvalidTimeT repositoryManifest p =
                        Inr (timePackaged p)) ps \<and>
        mset (map id' ps) = mset (map (\<lambda>e. id' (snd e)) packageTable)"
    using ps w s' t i by auto
next
  assume "list_all (\<lambda>e. manifest_TimePackaged ToTimeT InvalidTimeT repositoryManifest (snd e)
                      \<noteq> Inl (MiKTeXException ''Utils::ToTimeT'')) packageTable"
  then obtain ps where
    "packagedOnReversed_fill ToTimeT InvalidTimeT repositoryManifest packageTable [] = Inr ps"
    using packagedOnReversed_fill_total by blast
  then show "\<exists>dir' writes. CreateRepositoryInformationFile this md5 ToString ToTimeT InvalidTimeT
            Cfg_Write dir repositoryManifest packageTable = Inr (dir', writes)"
    by (simp add: CreateRepositoryInformationFile_def Let_def)
qed

theorem lastupd_non_increasing_witness:
  "list_all (\<lambda>e. manifest_TimePackaged example_ToTimeT (- 1) example_manifest (snd e)
                      \<noteq> Inl (MiKTeXException ''Utils::ToTimeT'')) example_table \<and>
   written_lastupd (CreateRepositoryInformationFile example_creator transcript (\<lambda>d. d)
      example_ToTimeT (- 1) (\<lambda>cfg. []) example_dir example_manifest example_table)
     = Some ''b c a _miktex-latex-packages''"
proof -
  let ?X = "CreateRepositoryInformationFile example_creator transcript (\<lambda>d. d)
      example_ToTimeT (- 1) (\<lambda>cfg. []) example_dir example_manifest example_table"
  have ok: "list_all (\<lambda>e. manifest_TimePackaged example_ToTimeT (- 1) example_manifest (snd e)
                      \<noteq> Inl (MiKTeXException ''Utils::ToTimeT'')) example_table"
    by (simp add: example_table_def example_manifest_def example_ToTimeT_def
        manifest_TimePackaged_def TryGetValueAsString_def example_pkg_def
        MpcPackageInfo_default_def)
  note th = lastupd_non_increasing
    [where this = example_creator and ?md5.0 = transcript and ToString = "\<lambda>d. d"
       and ToTimeT = example_ToTimeT and InvalidTimeT = "- 1" and Cfg_Write = "\<lambda>cfg. []"
       and dir = example_dir and repositoryManifest = example_manifest
       and packageTable = example_table]
  from th ok obtain d w where R: "?X = Inr (d, w)" by blast
  have w: "w \<noteq> []" using R by (auto simp: CreateRepositoryInformationFile_def Let_def split: sum.splits)
  from th[where dir' = d and writes = w] R example_fill
  have "list_all (\<lambda>cfg. TryGetValueAsString cfg ''repository'' ''lastupd'' =
           Some ''b c a _miktex-latex-packages'') w"
    by (auto simp: example_pkg_def MpcPackageInfo_default_def)
  then have "TryGetValueAsString (last w) ''repository'' ''lastupd'' =
           Some ''b c a _miktex-latex-packages''"
    using w by (simp add: list_all_iff)
  then show ?thesis using ok R by (simp add: written_lastupd_def)
qed

text \<open>
  Claim C5, as amended. When \<^verbatim>\<open>CreateRepositoryInformationFile\<close> returns it has
  written \<^verbatim>\<open>pr.ini\<close> twice. The first document has the digest of nothing as
  \<^verbatim>\<open>lstdigest\<close>. The second differs from it in \<^verbatim>\<open>lstdigest\<close> only, which is the digest
  of the sorted lines of the directory as it is after the first write, one line for
  each entry: the name, a semicolon, the size converted to \<^verbatim>\<open>int\<close> and a newline. For
  an entry smaller than \<open>2\<^sup>3\<^sup>1\<close> bytes that is the line of the specification.
\<close>

theorem lstdigest_of_listing:
  "(CreateRepositoryInformationFile this md5 ToString ToTimeT InvalidTimeT Cfg_Write
      dir repositoryManifest packageTable = Inr (dir', writes) \<longrightarrow>
     (\<exists>cfg1 cfg2. writes = [cfg1, cfg2] \<and>
        TryGetValueAsString cfg1 ''repository'' ''lstdigest'' =
          Some (ToString (Final md5 (Init md5))) \<and>
        TryGetValueAsString cfg2 ''repository'' ''lstdigest'' =
          Some (ToString (Final md5 (foldl (Update md5) (Init md5)
            (sort (map listing_line
               (filter (\<lambda>e. fst e \<noteq> ''pr.ini'') dir
                  @ [(''pr.ini'', of_nat (length (Cfg_Write cfg1)))])))))) \<and>
        (\<forall>name. name \<noteq> ''lstdigest'' \<longrightarrow>
           TryGetValueAsString cfg2 ''repository'' name =
           TryGetValueAsString cfg1 ''repository'' name)))
   \<and> (uint (snd dirEntry) < 2 ^ 31 \<longrightarrow> listing_line dirEntry = spec_listing_line dirEntry)"
  by (auto simp: CreateRepositoryInformationFile_def Let_def TryGet_PutValue listing_line_def
      spec_listing_line_def static_cast_int_small split: sum.splits)

theorem lstdigest_of_listing_witness:
  "uint (snd (''a.tar.lzma'', 10 :: 64 word)) < 2 ^ 31 \<and>
   listing_line (''a.tar.lzma'', 10) = spec_listing_line (''a.tar.lzma'', 10) \<and>
   written_lstdigest (CreateRepositoryInformationFile example_creator transcript (\<lambda>d. d)
      (\<lambda>s. None) (- 1) (\<lambda>cfg. ''0123456789'') example_dir [] [])
     = Some (''a.tar.lzma;10'' @ [CHR 0x0A] @ ''b.tar.lzma;7'' @ [CHR 0x0A]
             @ ''pr.ini;10'' @ [CHR 0x0A])"
proof -
  let ?X = "CreateRepositoryInformationFile example_creator transcript (\<lambda>d. d)
      (\<lambda>s. None) (- 1) (\<lambda>cfg. ''0123456789'') example_dir [] []"
  obtain d w where R: "?X = Inr (d, w)"
    by (simp add: CreateRepositoryInformationFile_def Let_def)
  note th = lstdigest_of_listing
    [where this = example_creator and ?md5.0 = transcript and ToString = "\<lambda>d. d"
       and ToTimeT = "\<lambda>s. None" and InvalidTimeT = "- 1" and Cfg_Write = "\<lambda>cfg. ''0123456789''"
       and dir = example_dir and repositoryManifest = "[]" and packageTable = "[]"
       and dir' = d and writes = w and dirEntry = "(''a.tar.lzma'', 10)"]
  have small: "uint (snd (''a.tar.lzma'', 10 :: 64 word)) < 2 ^ 31" by simp
  from th R obtain cfg1 cfg2 where w: "w = [cfg1, cfg2]"
    and l: "TryGetValueAsString cfg2 ''repository'' ''lstdigest'' =
          Some (Final transcript (foldl (Update transcript) (Init transcript)
            (sort (map listing_line
               (filter (\<lambda>e. fst e \<noteq> ''pr.ini'') example_dir
                  @ [(''pr.ini'', of_nat (length ''0123456789''))])))))"
    by blast
  have "written_lstdigest ?X = TryGetValueAsString cfg2 ''repository'' ''lstdigest''"
    using R w by (simp add: written_lstdigest_def)
  also have "\<dots> = Some (''a.tar.lzma;10'' @ [CHR 0x0A] @ ''b.tar.lzma;7'' @ [CHR 0x0A]
             @ ''pr.ini;10'' @ [CHR 0x0A])"
    unfolding l
    by (simp add: example_dir_def listing_line_def transcript_def to_string_def
        static_cast_int_def to_int_def digits.simps)
  finally show ?thesis using th small by blast
qed

text \<open>
  The claim as it stands fails for an entry of \<open>2\<^sup>3\<^sup>1\<close> bytes: the line hashed has the
  size \<^verbatim>\<open>-2147483648\<close>.
\<close>

theorem lstdigest_of_listing_counterexample:
  "written_lstdigest (CreateRepositoryInformationFile example_creator transcript (\<lambda>d. d)
      (\<lambda>s. None) (- 1) (\<lambda>cfg. []) example_big_dir [] [])
     = Some (''big.tar.lzma;-2147483648'' @ [CHR 0x0A] @ ''pr.ini;0'' @ [CHR 0x0A]) \<and>
   Final transcript (foldl (Update transcript) (Init transcript)
      (sort (map spec_listing_line (example_big_dir @ [(''pr.ini'', 0)]))))
     = ''big.tar.lzma;2147483648'' @ [CHR 0x0A] @ ''pr.ini;0'' @ [CHR 0x0A] \<and>
   written_lstdigest (CreateRepositoryInformationFile example_creator transcript (\<lambda>d. d)
      (\<lambda>s. None) (- 1) (\<lambda>cfg. []) example_big_dir [] [])
     \<noteq> Some (Final transcript (foldl (Update transcript) (Init transcript)
      (sort (map spec_listing_line (example_big_dir @ [(''pr.ini'', 0)])))))"
  by (simp add: written_lstdigest_def CreateRepositoryInformationFile_def Let_def
      TryGet_PutValue example_big_dir_def listing_line_def spec_listing_line_def
      transcript_def to_string_wrapped to_string_size to_string_def static_cast_int_def to_int_def digits.simps)

subsection \<open>Reuse of an archive\<close>

lemma HavePackageArchiveFile_found:
  "snd (HavePackageArchiveFile fs repository i) \<noteq> None_type \<Longrightarrow>
   map_of fs (fst (HavePackageArchiveFile fs repository i)) \<noteq> None"
  by (auto simp: HavePackageArchiveFile_def Let_def split: if_splits)

lemma HavePackageArchiveFile_last_match:
  "HavePackageArchiveFile fs repository i =
     (let base = AppendComponent repository i in
      if map_of fs (AppendExtension base ''.tar.lzma'') \<noteq> None
      then (AppendExtension base ''.tar.lzma'', TarLzma)
      else if map_of fs (AppendExtension base ''.tar.bz2'') \<noteq> None
      then (AppendExtension base ''.tar.bz2'', TarBzip2)
      else if map_of fs (AppendExtension base ''.cab'') \<noteq> None
      then (AppendExtension base ''.cab'', MSCab)
      else ([], None_type))"
  by (simp add: HavePackageArchiveFile_def Let_def)

lemma example_found:
  "HavePackageArchiveFile example_repository ''/repo'' (id' example_foo) =
     (''/repo/foo.tar.lzma'', TarLzma)"
  by (simp add: HavePackageArchiveFile_def Let_def example_repository_def example_foo_facts
      AppendComponent_def AppendExtension_def HasExtension_def GetExtension_def GetFileName_def)

lemma example_digest: "digest example_foo = MD5_default"
  by (simp add: example_foo_def read_values_def Let_def MpcPackageInfo_default_def)

lemma modify_modify: "modify k g (modify k h m) = modify k (\<lambda>v. g (h v)) m"
  by (induction m) auto

lemma SetTimes_read_file:
  "SetTimes p (- 1) (- 1) t (read_file X p fs) =
     modify p (\<lambda>f. f\<lparr> lastAccessTime := read_access X f,
                       lastWriteTime := (if t = - 1 then lastWriteTime f else t) \<rparr>) fs"
  by (cases "t = - 1") (simp_all add: SetTimes_def read_file_def modify_modify)

lemma example_manifest_unchanged:
  "manifest_unchanged example_externals example_repository_manifest example_foo =
     Inr (Some 1700000000)"
  "manifest_unchanged example_externals_noatime example_repository_manifest example_foo =
     Inr (Some 1700000000)"
  by (simp_all add: manifest_unchanged_def example_repository_manifest_def
      TryGetValueAsString_def example_foo_facts example_externals_def
      example_externals_noatime_def example_digest)

lemma example_reuse_test:
  "reuse_test example_creator example_externals_noatime example_foo ''/repo''
     example_repository_manifest example_repository [] =
     Inr (True, example_foo\<lparr>timePackaged := 1700000000\<rparr>, ''/repo/foo.tar.lzma'', TarLzma,
          example_repository, [])"
  unfolding reuse_test_def Let_def example_found example_manifest_unchanged by simp

text \<open>
  Claim C2, as amended. Let the repository have an archive of the package,
  \<^verbatim>\<open>id.tar.lzma\<close> before \<^verbatim>\<open>id.tar.bz2\<close> before \<^verbatim>\<open>id.cab\<close>, let the manifest record an
  \<^verbatim>\<open>MD5\<close> that parses to the digest of the package, and a \<^verbatim>\<open>TimePackaged\<close> that
  \<^verbatim>\<open>ToTimeT\<close> converts. Then \<^verbatim>\<open>reuseExisting\<close> is set with the repository as it was, the
  package takes the time of the manifest, the size and the digest of the archive, and
  no system command is run. Afterwards the repository has the files it had, and
  nothing of them has changed but two times of the archive: its access time is the
  one that the file system gives it when the file is read for its digest, and its
  last-write time is the time of the manifest, unless that time is \<open>-1\<close>, which
  \<^verbatim>\<open>File::SetTimes\<close> takes as the order to leave the time. The bytes and the creation
  time of the archive are as they were.
\<close>

theorem reuse_keeps_archive:
  assumes found: "HavePackageArchiveFile fs repository (id' packageInfo) = (archiveFile, aft)"
      "aft \<noteq> None_type"
    and md5: "TryGetValueAsString repositoryManifest (id' packageInfo) ''MD5'' = Some strMD5"
      "parse_md5 X strMD5 = Some (digest packageInfo)"
    and tp: "TryGetValueAsString repositoryManifest (id' packageInfo) ''TimePackaged'' = Some strTimePackaged"
      "to_time X strTimePackaged = Some t"
  shows "(\<exists>f. map_of fs archiveFile = Some f \<and>
           reuse_test this X packageInfo repository repositoryManifest fs cmds =
             Inr (True, packageInfo\<lparr>timePackaged := t\<rparr>, archiveFile, aft, fs, cmds) \<and>
           CreateArchiveFile this X haveFiles packageInfo repository repositoryManifest fs cmds =
             Inr (aft,
                  packageInfo\<lparr> timePackaged := t,
                                archiveFileSize := of_nat (length (content f)),
                                archiveFileDigest := hash_file X (content f) \<rparr>,
                  modify archiveFile
                    (\<lambda>f. f\<lparr> lastAccessTime := read_access X f,
                           lastWriteTime := (if t = - 1 then lastWriteTime f else t) \<rparr>) fs,
                  cmds))
         \<and> HavePackageArchiveFile fs repository (id' packageInfo) =
             (let base = AppendComponent repository (id' packageInfo) in
              if map_of fs (AppendExtension base ''.tar.lzma'') \<noteq> None
              then (AppendExtension base ''.tar.lzma'', TarLzma)
              else if map_of fs (AppendExtension base ''.tar.bz2'') \<noteq> None
              then (AppendExtension base ''.tar.bz2'', TarBzip2)
              else if map_of fs (AppendExtension base ''.cab'') \<noteq> None
              then (AppendExtension base ''.cab'', MSCab)
              else ([], None_type))"
proof -
  obtain f where f: "map_of fs archiveFile = Some f"
    using HavePackageArchiveFile_found[of fs repository "id' packageInfo"] found by auto
  have m: "manifest_unchanged X repositoryManifest packageInfo = Inr (Some t)"
    using md5 tp by (simp add: manifest_unchanged_def)
  have r: "reuse_test this X packageInfo repository repositoryManifest fs cmds =
             Inr (True, packageInfo\<lparr>timePackaged := t\<rparr>, archiveFile, aft, fs, cmds)"
    using found m by (simp add: reuse_test_def Let_def)
  have c: "CreateArchiveFile this X haveFiles packageInfo repository repositoryManifest fs cmds =
             Inr (aft,
                  packageInfo\<lparr> timePackaged := t,
                                archiveFileSize := of_nat (length (content f)),
                                archiveFileDigest := hash_file X (content f) \<rparr>,
                  modify archiveFile
                    (\<lambda>f. f\<lparr> lastAccessTime := read_access X f,
                           lastWriteTime := (if t = - 1 then lastWriteTime f else t) \<rparr>) fs,
                  cmds)"
    unfolding CreateArchiveFile_def r using f by (simp add: SetTimes_read_file)
  show ?thesis
    using f r c HavePackageArchiveFile_last_match[of fs repository "id' packageInfo"] by blast
qed

theorem reuse_keeps_archive_witness:
  "HavePackageArchiveFile example_repository ''/repo'' (id' example_foo) =
     (''/repo/foo.tar.lzma'', TarLzma) \<and> TarLzma \<noteq> None_type \<and>
   TryGetValueAsString example_repository_manifest (id' example_foo) ''MD5'' =
     Some ''00000000000000000000000000000000'' \<and>
   parse_md5 example_externals ''00000000000000000000000000000000'' = Some (digest example_foo) \<and>
   TryGetValueAsString example_repository_manifest (id' example_foo) ''TimePackaged'' =
     Some ''1700000000'' \<and>
   to_time example_externals ''1700000000'' = Some 1700000000 \<and>
   CreateArchiveFile example_creator example_externals True example_foo ''/repo''
     example_repository_manifest example_repository [] =
     Inr (TarLzma,
          example_foo\<lparr> timePackaged := 1700000000, archiveFileSize := 7,
                        archiveFileDigest := ''archive'' \<rparr>,
          [(''/repo/foo.tar.lzma'',
            \<lparr> content = ''archive'', creationTime = 5, lastAccessTime = 1800000000,
              lastWriteTime = 1700000000 \<rparr>)],
          [])"
proof -
  have h: "TryGetValueAsString example_repository_manifest (id' example_foo) ''MD5'' =
     Some ''00000000000000000000000000000000''"
    "parse_md5 example_externals ''00000000000000000000000000000000'' = Some (digest example_foo)"
    "TryGetValueAsString example_repository_manifest (id' example_foo) ''TimePackaged'' =
     Some ''1700000000''"
    "to_time example_externals ''1700000000'' = Some 1700000000"
    by (simp_all add: example_repository_manifest_def TryGetValueAsString_def example_foo_facts
        example_externals_def example_digest)
  have n: "TarLzma \<noteq> None_type" by simp
  from reuse_keeps_archive[OF example_found n h, of example_creator "[]" True]
  obtain f where f: "map_of example_repository ''/repo/foo.tar.lzma'' = Some f"
    and c: "CreateArchiveFile example_creator example_externals True example_foo ''/repo''
     example_repository_manifest example_repository [] =
       Inr (TarLzma,
            example_foo\<lparr> timePackaged := 1700000000,
                          archiveFileSize := of_nat (length (content f)),
                          archiveFileDigest := hash_file example_externals (content f) \<rparr>,
            modify ''/repo/foo.tar.lzma''
              (\<lambda>f. f\<lparr> lastAccessTime := read_access example_externals f,
                     lastWriteTime := (if (1700000000::int) = - 1 then lastWriteTime f
                                       else 1700000000) \<rparr>)
              example_repository,
            [])"
    by blast
  have "f = \<lparr> content = ''archive'', creationTime = 5, lastAccessTime = 6, lastWriteTime = 7 \<rparr>"
    using f by (simp add: example_repository_def)
  then have "CreateArchiveFile example_creator example_externals True example_foo ''/repo''
     example_repository_manifest example_repository [] =
     Inr (TarLzma,
          example_foo\<lparr> timePackaged := 1700000000, archiveFileSize := 7,
                        archiveFileDigest := ''archive'' \<rparr>,
          [(''/repo/foo.tar.lzma'',
            \<lparr> content = ''archive'', creationTime = 5, lastAccessTime = 1800000000,
              lastWriteTime = 1700000000 \<rparr>)],
          [])"
    using c by (simp add: example_repository_def example_externals_def)
  then show ?thesis using example_found h n by blast
qed

text \<open>
  The claim as it stands fails: the archive is not left untouched. Also on a file
  system that leaves the access time of a file that is read, the last-write time of
  the archive, which was 7, is the time of the manifest afterwards.
\<close>

theorem reuse_touches_archive_counterexample:
  "CreateArchiveFile example_creator example_externals_noatime True example_foo ''/repo''
     example_repository_manifest example_repository [] =
     Inr (TarLzma,
          example_foo\<lparr> timePackaged := 1700000000, archiveFileSize := 7,
                        archiveFileDigest := ''archive'' \<rparr>,
          [(''/repo/foo.tar.lzma'',
            \<lparr> content = ''archive'', creationTime = 5, lastAccessTime = 6,
              lastWriteTime = 1700000000 \<rparr>)],
          []) \<and>
   example_repository =
     [(''/repo/foo.tar.lzma'',
       \<lparr> content = ''archive'', creationTime = 5, lastAccessTime = 6, lastWriteTime = 7 \<rparr>)] \<and>
   [(''/repo/foo.tar.lzma'',
     \<lparr> content = ''archive'', creationTime = 5, lastAccessTime = 6,
       lastWriteTime = 1700000000 \<rparr>)] \<noteq> example_repository"
  unfolding CreateArchiveFile_def example_reuse_test
  by (simp add: SetTimes_def read_file_def example_repository_def example_externals_def
      example_externals_noatime_def)

end
